theory Spec2Isabelle
  imports Main
begin

section \<open>The persisted stores (src/db/index.ts)\<close>

text \<open>
  The database holds two tables: \<open>preferences\<close> (key, value; both text) and \<open>threads\<close>
  (one row per \<open>thread_id\<close>, which is UNIQUE). A table with a unique key is a map from
  the key to the row. \<open>next_id\<close> is the AUTOINCREMENT counter of \<open>threads.id\<close>.

  Every exception the source can raise is a value of \<open>error\<close>.
\<close>

datatype error =
    SqliteError                     \<comment> \<open>the statement is refused: a parameter that cannot be bound, or NOT NULL\<close>
  | UnknownPreferenceKey string     \<comment> \<open>\<open>throw new Error(`Unknown preference key: ${key}`)\<close>\<close>
  | CalendarError                   \<comment> \<open>a calendar API call rejects\<close>
  | RangeError                      \<comment> \<open>\<open>toISOString\<close> of an Invalid Date\<close>
  | TypeError                       \<comment> \<open>a method call on a value that has no such method\<close>
  | SyntaxError                     \<comment> \<open>\<open>JSON.parse\<close> of a text that is no JSON\<close>

text \<open>
  \<open>TimeSlot\<close> of src/types.ts: two ISO 8601 strings. (\<open>end\<close> is a keyword of Isabelle, so
  the fields carry a prefix.)
\<close>

record TimeSlot =
  slot_start :: string
  slot_end :: string

text \<open>
  \<open>ThreadRow\<close>: a row of table \<open>threads\<close>. A nullable column is an \<open>option\<close>, NULL being
  \<open>None\<close>. \<open>state\<close> is TEXT with no CHECK constraint, so it is any string. The column
  \<open>proposed_slots\<close> holds the JSON text that \<open>JSON.stringify\<close> makes of the slot list; it is
  represented by the list it encodes (\<open>JSON.parse\<close> gives back the list that
  \<open>JSON.stringify\<close> wrote, and the text of an array is never the empty string, so that the
  test \<open>row.proposed_slots ? ... : null\<close> of \<open>rowToThread\<close> is the test for NULL).
  The timestamps are the values of \<open>datetime('now')\<close>, a clock reading.
\<close>

record ThreadRow =
  row_id :: nat
  thread_id :: string
  row_state :: string
  proposed_slots :: "TimeSlot list option"
  requester_email :: string
  requester_name :: "string option"
  attendee_email :: "string option"
  meeting_title :: "string option"
  meeting_duration_minutes :: "int option"
  calendar_event_id :: "string option"
  created_at :: nat
  updated_at :: nat

text \<open>\<open>Thread\<close> of src/types.ts, with the \<open>attendeeEmail\<close> that \<open>rowToThread\<close> fills.\<close>

record Thread =
  t_id :: nat
  threadId :: string
  state :: string
  proposedSlots :: "TimeSlot list option"
  requesterEmail :: string
  requesterName :: "string option"
  attendeeEmail :: "string option"
  meetingTitle :: "string option"
  meetingDurationMinutes :: "int option"
  calendarEventId :: "string option"
  createdAt :: nat
  updatedAt :: nat

record Db =
  preferences :: "string \<rightharpoonup> string"
  threads :: "string \<rightharpoonup> ThreadRow"
  next_id :: nat

definition rowToThread :: "ThreadRow \<Rightarrow> Thread" where
  "rowToThread row =
     \<lparr> t_id = row_id row,
       threadId = thread_id row,
       state = row_state row,
       proposedSlots = (case proposed_slots row of Some slots \<Rightarrow> Some slots | None \<Rightarrow> None),
       requesterEmail = requester_email row,
       requesterName = requester_name row,
       attendeeEmail = attendee_email row,
       meetingTitle = meeting_title row,
       meetingDurationMinutes = meeting_duration_minutes row,
       calendarEventId = calendar_event_id row,
       createdAt = created_at row,
       updatedAt = updated_at row \<rparr>"

text \<open>\<open>getThread\<close>: \<open>SELECT * FROM threads WHERE thread_id = ?\<close>; null when there is no row.\<close>

definition getThread :: "Db \<Rightarrow> string \<Rightarrow> Thread option" where
  "getThread db tid = (case threads db tid of Some row \<Rightarrow> Some (rowToThread row) | None \<Rightarrow> None)"

text \<open>
  The parameter object of \<open>upsertThread\<close>. TypeScript's types are erased at run time and
  the callers pass values of the tool input cast with \<open>as any\<close>, so every property may be
  missing: \<open>None\<close> is \<open>undefined\<close> or \<open>null\<close>, also for the two properties the type
  declares as required (\<open>threadId\<close>, \<open>state\<close>).
\<close>

record UpsertParams =
  p_threadId :: "string option"
  p_state :: "string option"
  p_requesterEmail :: "string option"
  p_requesterName :: "string option"
  p_attendeeEmail :: "string option"
  p_meetingTitle :: "string option"
  p_meetingDurationMinutes :: "int option"
  p_proposedSlots :: "TimeSlot list option"
  p_calendarEventId :: "string option"

text \<open>SQL's \<open>COALESCE(a, b)\<close>: the first argument that is not NULL.\<close>

definition COALESCE :: "'a option \<Rightarrow> 'a option \<Rightarrow> 'a option" where
  "COALESCE a b = (case a of Some v \<Rightarrow> Some v | None \<Rightarrow> b)"

text \<open>
  The row the INSERT proposes (\<open>excluded\<close> in the ON CONFLICT clause), from the values
  bound by \<open>.run(...)\<close>: \<open>requesterEmail ?? ""\<close>, \<open>x ?? null\<close> for the nullable ones, and
  \<open>params.proposedSlots ? JSON.stringify(params.proposedSlots) : null\<close> (an array is truthy,
  the empty one too).
\<close>

definition excludedRow :: "nat \<Rightarrow> nat \<Rightarrow> string \<Rightarrow> string \<Rightarrow> UpsertParams \<Rightarrow> ThreadRow" where
  "excludedRow now new_id tid st p =
     \<lparr> row_id = new_id,
       thread_id = tid,
       row_state = st,
       proposed_slots = (case p_proposedSlots p of Some slots \<Rightarrow> Some slots | None \<Rightarrow> None),
       requester_email = (case p_requesterEmail p of Some e \<Rightarrow> e | None \<Rightarrow> []),
       requester_name = p_requesterName p,
       attendee_email = p_attendeeEmail p,
       meeting_title = p_meetingTitle p,
       meeting_duration_minutes = p_meetingDurationMinutes p,
       calendar_event_id = p_calendarEventId p,
       created_at = now,
       updated_at = now \<rparr>"

text \<open>The \<open>DO UPDATE SET\<close> clause, on the stored row \<open>old\<close> and the proposed row.\<close>

definition conflictUpdate :: "nat \<Rightarrow> ThreadRow \<Rightarrow> ThreadRow \<Rightarrow> ThreadRow" where
  "conflictUpdate now old excluded =
     old \<lparr> row_state := row_state excluded,
           requester_name := COALESCE (requester_name excluded) (requester_name old),
           attendee_email := COALESCE (attendee_email excluded) (attendee_email old),
           meeting_title := COALESCE (meeting_title excluded) (meeting_title old),
           meeting_duration_minutes :=
             COALESCE (meeting_duration_minutes excluded) (meeting_duration_minutes old),
           proposed_slots := proposed_slots excluded,
           calendar_event_id := COALESCE (calendar_event_id excluded) (calendar_event_id old),
           updated_at := now \<rparr>"

text \<open>
  \<open>upsertThread\<close>, at clock reading \<open>now\<close>. It returns what the call returns or throws,
  and the database after it. The statement is refused, and nothing is written, when
  \<open>thread_id\<close> or \<open>state\<close> is missing: the driver binds no \<open>undefined\<close>, and both columns
  are NOT NULL. Otherwise the row is inserted, or the stored row with that
  \<open>thread_id\<close> is updated; the result is \<open>getThread(params.threadId)!\<close>. The row is
  there after the write, so the assertion holds and the last \<open>None\<close> branch is never
  taken (lemmas \<open>upsertThread_existing\<close> and \<open>upsertThread_new\<close>).
\<close>

definition upsertThread :: "nat \<Rightarrow> Db \<Rightarrow> UpsertParams \<Rightarrow> (error + Thread) \<times> Db" where
  "upsertThread now db p =
     (case p_threadId p of
        None \<Rightarrow> (Inl SqliteError, db)
      | Some tid \<Rightarrow>
          (case p_state p of
             None \<Rightarrow> (Inl SqliteError, db)
           | Some st \<Rightarrow>
               (let excluded = excludedRow now (next_id db) tid st p;
                    db' = (case threads db tid of
                             None \<Rightarrow> db \<lparr> threads := (threads db)(tid \<mapsto> excluded),
                                          next_id := Suc (next_id db) \<rparr>
                           | Some old \<Rightarrow>
                               db \<lparr> threads := (threads db)(tid \<mapsto> conflictUpdate now old excluded) \<rparr>)
                in (case getThread db' tid of
                      Some t \<Rightarrow> (Inr t, db')
                    | None \<Rightarrow> (Inl SqliteError, db')))))"

text \<open>\<open>toolUpdateThreadState\<close> of src/tools/threads.ts hands its parameters to \<open>upsertThread\<close>.\<close>

record UpdateThreadStateParams =
  u_threadId :: "string option"
  u_state :: "string option"
  u_proposedSlots :: "TimeSlot list option"
  u_attendeeEmail :: "string option"
  u_meetingTitle :: "string option"
  u_meetingDurationMinutes :: "int option"
  u_calendarEventId :: "string option"

definition toolUpdateThreadState ::
  "nat \<Rightarrow> Db \<Rightarrow> UpdateThreadStateParams \<Rightarrow> (error + Thread) \<times> Db" where
  "toolUpdateThreadState now db u =
     upsertThread now db
       \<lparr> p_threadId = u_threadId u,
         p_state = u_state u,
         p_requesterEmail = None,
         p_requesterName = None,
         p_attendeeEmail = u_attendeeEmail u,
         p_meetingTitle = u_meetingTitle u,
         p_meetingDurationMinutes = u_meetingDurationMinutes u,
         p_proposedSlots = u_proposedSlots u,
         p_calendarEventId = u_calendarEventId u \<rparr>"

definition toolGetThread :: "Db \<Rightarrow> string \<Rightarrow> Thread option" where
  "toolGetThread db tid = getThread db tid"

text \<open>The four values of the type \<open>ThreadState\<close>.\<close>

definition ThreadState :: "string list" where
  "ThreadState = [''new'', ''awaiting_confirmation'', ''booked'', ''cancelled'']"

section \<open>The preference tool (src/tools/preferences.ts, src/db/index.ts)\<close>

text \<open>
  The value of \<open>noMeetingDays\<close> is what \<open>JSON.parse\<close> makes of the stored text
  (\<open>getPreferences\<close>), and \<open>setPreference\<close> stores any text: it is an array of numbers,
  as the type \<open>Preferences\<close> declares, or a value without an \<open>includes\<close> method (a
  number, \<open>null\<close>, a boolean, an object).
\<close>

datatype DaysValue = DaysArray "int list" | NotAnArray

text \<open>
  \<open>Preferences\<close>, as \<open>getPreferences\<close> builds it: the fields of src/types.ts and
  \<open>customRules\<close>.
\<close>

record Preferences =
  workingHoursStart :: string
  workingHoursEnd :: string
  timezone :: string
  defaultMeetingDurationMinutes :: int
  bufferBeforeMinutes :: int
  bufferAfterMinutes :: int
  preferredPlatform :: string
  maxMeetingsPerDay :: int
  noMeetingDays :: DaysValue
  customRules :: string

text \<open>
  \<open>DEFAULT_PREFERENCES\<close>, in the order of the object literal (with the default of
  \<open>OWNER_TIMEZONE\<close>); its keys are the fields of the preference record.
\<close>

definition DEFAULT_PREFERENCES :: "(string \<times> string) list" where
  "DEFAULT_PREFERENCES =
     [(''workingHoursStart'', ''09:00''),
      (''workingHoursEnd'', ''18:00''),
      (''timezone'', ''America/Los_Angeles''),
      (''defaultMeetingDurationMinutes'', ''30''),
      (''bufferBeforeMinutes'', ''5''),
      (''bufferAfterMinutes'', ''5''),
      (''preferredPlatform'', ''Google Meet''),
      (''maxMeetingsPerDay'', ''6''),
      (''noMeetingDays'', ''[0,6]''),
      (''customRules'', [])]"

text \<open>\<open>setPreference\<close>: \<open>INSERT OR REPLACE INTO preferences (key, value)\<close>.\<close>

definition setPreference :: "Db \<Rightarrow> string \<Rightarrow> string \<Rightarrow> Db" where
  "setPreference db key v = db \<lparr> preferences := (preferences db)(key \<mapsto> v) \<rparr>"

definition validKeys :: "string list" where
  "validKeys =
     [''workingHoursStart'',
      ''workingHoursEnd'',
      ''timezone'',
      ''defaultMeetingDurationMinutes'',
      ''bufferBeforeMinutes'',
      ''bufferAfterMinutes'',
      ''preferredPlatform'',
      ''maxMeetingsPerDay'',
      ''noMeetingDays'']"

text \<open>\<open>toolSetPreference\<close>; \<open>Inr True\<close> is \<open>{ success: true }\<close>.\<close>

definition toolSetPreference :: "Db \<Rightarrow> string \<Rightarrow> string \<Rightarrow> (error + bool) \<times> Db" where
  "toolSetPreference db key v =
     (if key \<notin> set validKeys then (Inl (UnknownPreferenceKey key), db)
      else (Inr True, setPreference db key v))"

section \<open>Booking and cancelling (executeTool of src/agent.ts, src/tools/calendar.ts)\<close>

text \<open>
  The calendar is an external service. What it answers is a parameter: whether
  \<open>events.patch\<close> resolves for an event id and a request, what \<open>events.insert\<close> returns
  (\<open>None\<close> when it rejects), and whether the cancelling call resolves. The calls made are
  recorded in order.
\<close>

record BookingResult =
  eventId :: string
  eventLink :: string
  meetLink :: "string option"

text \<open>The tool input of \<open>book_meeting\<close>.\<close>

record BookMeetingInput =
  i_title :: string
  i_start :: string
  i_end :: string
  i_attendeeEmail :: string
  i_attendeeName :: "string option"
  i_description :: "string option"
  i_existingEventId :: "string option"

record Calendar =
  patch_resolves :: "string \<Rightarrow> BookMeetingInput \<Rightarrow> bool"
  insert_returns :: "BookMeetingInput \<Rightarrow> bool \<Rightarrow> BookingResult option"
  cancel_resolves :: "string \<Rightarrow> bool"

datatype CalendarCall = UpdateEvent string | CreateEvent | CancelEvent string

definition toolUpdateCalendarEvent ::
  "Calendar \<Rightarrow> string \<Rightarrow> BookMeetingInput \<Rightarrow> (error + unit) \<times> CalendarCall list" where
  "toolUpdateCalendarEvent cal eid inp =
     (if patch_resolves cal eid inp then (Inr (), [UpdateEvent eid])
      else (Inl CalendarError, [UpdateEvent eid]))"

definition toolCreateCalendarEvent ::
  "Calendar \<Rightarrow> BookMeetingInput \<Rightarrow> bool \<Rightarrow> (error + BookingResult) \<times> CalendarCall list" where
  "toolCreateCalendarEvent cal inp addGoogleMeet =
     (case insert_returns cal inp addGoogleMeet of
        Some booking \<Rightarrow> (Inr booking, [CreateEvent])
      | None \<Rightarrow> (Inl CalendarError, [CreateEvent]))"

text \<open>
  The candidate event of a booking: \<open>toolInput.existingEventId ?? existingThread?.calendarEventId\<close>.
\<close>

definition existingEventIdOf :: "Db \<Rightarrow> string \<Rightarrow> BookMeetingInput \<Rightarrow> string option" where
  "existingEventIdOf db tid inp =
     (case i_existingEventId inp of
        Some e \<Rightarrow> Some e
      | None \<Rightarrow> (case toolGetThread db tid of Some t \<Rightarrow> calendarEventId t | None \<Rightarrow> None))"

text \<open>
  The first half of \<open>case "book_meeting"\<close>: the booking and the calendar calls made for
  it. \<open>if (existingEventId)\<close> is the test for a string that is not empty. A rejected update
  is caught (and logged); a rejected create is not.
\<close>

definition bookOnCalendar ::
  "Calendar \<Rightarrow> bool \<Rightarrow> string option \<Rightarrow> BookMeetingInput
     \<Rightarrow> (error + BookingResult) \<times> CalendarCall list" where
  "bookOnCalendar cal addMeet existingEventId inp =
     (case existingEventId of
        None \<Rightarrow> toolCreateCalendarEvent cal inp addMeet
      | Some eid \<Rightarrow>
          (if eid = [] then toolCreateCalendarEvent cal inp addMeet
           else (case toolUpdateCalendarEvent cal eid inp of
                   (Inr u, calls) \<Rightarrow>
                     (Inr \<lparr> eventId = eid, eventLink = [], meetLink = None \<rparr>, calls)
                 | (Inl err, calls) \<Rightarrow>
                     (case toolCreateCalendarEvent cal inp addMeet of
                        (r, calls') \<Rightarrow> (r, calls @ calls')))))"

text \<open>
  \<open>case "book_meeting"\<close> of \<open>executeTool\<close>, for the thread \<open>ctx.email.threadId\<close>, with the
  preferences that \<open>toolGetPreferences()\<close> returned. It gives what the tool call returns
  or throws, the database after it, and the calendar calls it made.
\<close>

definition book_meeting ::
  "Calendar \<Rightarrow> nat \<Rightarrow> Preferences \<Rightarrow> Db \<Rightarrow> string \<Rightarrow> BookMeetingInput
     \<Rightarrow> (error + BookingResult) \<times> Db \<times> CalendarCall list" where
  "book_meeting cal now prefs db ctxThreadId inp =
     (let addMeet = (preferredPlatform prefs = ''Google Meet'');
          existingEventId = existingEventIdOf db ctxThreadId inp
      in (case bookOnCalendar cal addMeet existingEventId inp of
            (Inl err, calls) \<Rightarrow> (Inl err, db, calls)
          | (Inr booking, calls) \<Rightarrow>
              (case toolUpdateThreadState now db
                      \<lparr> u_threadId = Some ctxThreadId,
                        u_state = Some ''booked'',
                        u_proposedSlots = None,
                        u_attendeeEmail = Some (i_attendeeEmail inp),
                        u_meetingTitle = None,
                        u_meetingDurationMinutes = None,
                        u_calendarEventId = Some (eventId booking) \<rparr> of
                 (Inl err, db') \<Rightarrow> (Inl err, db', calls)
               | (Inr t, db') \<Rightarrow> (Inr booking, db', calls))))"

text \<open>
  Modelled from the spec: the thread transition of a cancellation, which is part of
  \<open>toolCancelCalendarEvent\<close>, a function that is not among the sources. Section 4.2 of the
  specification: the Thread's state transitions to \<open>cancelled\<close>, but the event reference
  is retained rather than cleared. The thread of an event is the one that stores its
  reference; every other row stays as it is.
\<close>

definition cancelThreadsOf :: "string \<Rightarrow> (string \<rightharpoonup> ThreadRow) \<Rightarrow> (string \<rightharpoonup> ThreadRow)" where
  "cancelThreadsOf eid rows =
     (\<lambda>tid. case rows tid of
               None \<Rightarrow> None
             | Some row \<Rightarrow>
                 (if calendar_event_id row = Some eid
                  then Some (row \<lparr> row_state := ''cancelled'' \<rparr>)
                  else Some row))"

text \<open>
  Modelled from the spec: \<open>toolCancelCalendarEvent\<close> of src/tools/calendar.ts is not among
  the sources (only its import and its call in \<open>executeTool\<close> are). Section 6 of the
  specification gives the calendar call, \<open>cancelEvent(eventId) -> void\<close>, which notifies
  attendees and can fail. Section 4.2 gives the cancellation: the calendar event is marked
  cancelled and the thread makes its transition. A call that fails leaves the state
  unchanged (section 7).
\<close>

definition toolCancelCalendarEvent ::
  "Calendar \<Rightarrow> Db \<Rightarrow> string \<Rightarrow> (error + unit) \<times> Db \<times> CalendarCall list" where
  "toolCancelCalendarEvent cal db eid =
     (if cancel_resolves cal eid
      then (Inr (), db \<lparr> threads := cancelThreadsOf eid (threads db) \<rparr>, [CancelEvent eid])
      else (Inl CalendarError, db, [CancelEvent eid]))"

text \<open>
  \<open>case "cancel_meeting"\<close> of \<open>executeTool\<close>. The function first calls
  \<open>toolGetPreferences()\<close>, which throws (a SyntaxError of \<open>JSON.parse\<close>) when the stored
  \<open>noMeetingDays\<close> does not parse; what that call gives, the preferences or the exception,
  is the parameter \<open>prefsRead\<close>. Then
  \<open>return toolCancelCalendarEvent(toolInput.eventId as string)\<close>.
\<close>

definition cancel_meeting ::
  "Calendar \<Rightarrow> error + Preferences \<Rightarrow> Db \<Rightarrow> string \<Rightarrow> (error + unit) \<times> Db \<times> CalendarCall list" where
  "cancel_meeting cal prefsRead db eid =
     (case prefsRead of
        Inl err \<Rightarrow> (Inl err, db, [])
      | Inr prefs \<Rightarrow> toolCancelCalendarEvent cal db eid)"

section \<open>The free-window computation (computeFreeSlots of src/tools/calendar.ts)\<close>

text \<open>
  A JavaScript \<open>Date\<close> holds a time value: an integral number of milliseconds since the
  epoch, or NaN (an Invalid Date), which is \<open>None\<close>. The relational operators convert
  their operands to numbers, and every comparison with NaN is false.
\<close>

type_synonym Date = "int option"

definition date_lt :: "Date \<Rightarrow> Date \<Rightarrow> bool" where
  "date_lt a b = (case a of None \<Rightarrow> False | Some x \<Rightarrow> (case b of None \<Rightarrow> False | Some y \<Rightarrow> x < y))"

definition date_gt :: "Date \<Rightarrow> Date \<Rightarrow> bool" where
  "date_gt a b = (case a of None \<Rightarrow> False | Some x \<Rightarrow> (case b of None \<Rightarrow> False | Some y \<Rightarrow> x > y))"

definition date_le :: "Date \<Rightarrow> Date \<Rightarrow> bool" where
  "date_le a b = (case a of None \<Rightarrow> False | Some x \<Rightarrow> (case b of None \<Rightarrow> False | Some y \<Rightarrow> x \<le> y))"

text \<open>
  What the computation takes from its host (the JavaScript engine and the time zone of
  the process), as parameters. Nothing is assumed of them:
  \<^item> \<open>newDate s\<close>: the time value of \<open>new Date(s)\<close>; \<open>None\<close> for a string that is no date;
  \<^item> \<open>Number s\<close>: the integral part of the number \<open>Number(s)\<close>, as \<open>setHours\<close> reads it;
    \<open>None\<close> for NaN and the infinities;
  \<^item> \<open>localTimeOn t h m\<close>: the time value of a valid date \<open>t\<close> after
    \<open>setHours(h, m, 0, 0)\<close>, that is the local time \<open>h:m\<close> on the local calendar day of
    \<open>t\<close>, by the zone's offset on that day and the language's rule for a local time that a
    change of offset skips or repeats; \<open>None\<close> when it is out of the range of dates;
  \<^item> \<open>dayAfter t\<close>: the time value of a valid date \<open>t\<close> after \<open>setDate(getDate() + 1)\<close>, the
    same local time on the next local calendar day (23, 24 or 25 hours later, as the
    zone has it); \<open>None\<close> when it is out of the range of dates;
  \<^item> \<open>weekday t\<close>: \<open>getDay()\<close> of a valid date \<open>t\<close>, the local day of the week, 0 being
    Sunday.
\<close>

record Host =
  newDate :: "string \<Rightarrow> Date"
  Number :: "string \<Rightarrow> int option"
  localTimeOn :: "int \<Rightarrow> int \<Rightarrow> int \<Rightarrow> Date"
  dayAfter :: "int \<Rightarrow> Date"
  weekday :: "int \<Rightarrow> int"

text \<open>\<open>s.split(":")\<close>.\<close>

fun split_colon :: "string \<Rightarrow> string list" where
  "split_colon [] = [[]]"
| "split_colon (c # cs) =
     (if c = CHR '':'' then [] # split_colon cs
      else (case split_colon cs of p # ps \<Rightarrow> (c # p) # ps | [] \<Rightarrow> [[c]]))"

text \<open>
  \<open>const [hour, min] = s.split(":").map(Number)\<close>: an element the array does not have is
  \<open>undefined\<close>, which \<open>setHours\<close> converts to NaN.
\<close>

definition hourMin :: "Host \<Rightarrow> string \<Rightarrow> int option \<times> int option" where
  "hourMin H s =
     (case map (Number H) (split_colon s) of
        [] \<Rightarrow> (None, None)
      | [h] \<Rightarrow> (h, None)
      | h # m # rest \<Rightarrow> (h, m))"

text \<open>
  \<open>d = new Date(day); d.setHours(hour, min, 0, 0)\<close>: an Invalid Date stays invalid, and
  an hour or a minute that is NaN makes the date invalid; otherwise the host gives the
  local time on that day.
\<close>

definition setHours :: "Host \<Rightarrow> Date \<Rightarrow> int option \<Rightarrow> int option \<Rightarrow> Date" where
  "setHours H day hour minute =
     (case day of None \<Rightarrow> None
      | Some t \<Rightarrow>
          (case hour of None \<Rightarrow> None
           | Some h \<Rightarrow> (case minute of None \<Rightarrow> None | Some m \<Rightarrow> localTimeOn H t h m)))"

text \<open>\<open>day.setDate(day.getDate() + 1)\<close>.\<close>

definition nextDay :: "Host \<Rightarrow> Date \<Rightarrow> Date" where
  "nextDay H day = (case day of None \<Rightarrow> None | Some t \<Rightarrow> dayAfter H t)"

text \<open>\<open>day.getDay()\<close>; NaN for an Invalid Date.\<close>

definition getDay :: "Host \<Rightarrow> Date \<Rightarrow> int option" where
  "getDay H day = (case day of None \<Rightarrow> None | Some t \<Rightarrow> Some (weekday H t))"

text \<open>
  \<open>prefs.noMeetingDays.includes(day.getDay())\<close>: a TypeError when the value has no
  \<open>includes\<close> method; on an array, whether the day is an element (NaN is none).
\<close>

definition array_includes :: "DaysValue \<Rightarrow> int option \<Rightarrow> error + bool" where
  "array_includes v d =
     (case v of
        NotAnArray \<Rightarrow> Inl TypeError
      | DaysArray xs \<Rightarrow> Inr (case d of None \<Rightarrow> False | Some k \<Rightarrow> k \<in> set xs))"

text \<open>
  \<open>{ start: Date, end: Date }\<close>, the objects the computation works on. A returned window
  has the two strings that \<open>toISOString\<close> prints; it is represented by the two dates printed.
\<close>

record DateSlot =
  d_start :: Date
  d_end :: Date

definition toDates :: "Host \<Rightarrow> TimeSlot \<Rightarrow> DateSlot" where
  "toDates H b = \<lparr> d_start = newDate H (slot_start b), d_end = newDate H (slot_end b) \<rparr>"

text \<open>\<open>toISOString\<close> throws a RangeError on an Invalid Date.\<close>

definition toISOString :: "Date \<Rightarrow> error + Date" where
  "toISOString d = (case d of None \<Rightarrow> Inl RangeError | Some t \<Rightarrow> Inr (Some t))"

text \<open>\<open>freeWindows.push({ start: a.toISOString(), end: b.toISOString() })\<close>.\<close>

definition pushWindow :: "Date \<Rightarrow> Date \<Rightarrow> DateSlot list \<Rightarrow> error + DateSlot list" where
  "pushWindow a b freeWindows =
     (case toISOString a of
        Inl err \<Rightarrow> Inl err
      | Inr s \<Rightarrow>
          (case toISOString b of
             Inl err \<Rightarrow> Inl err
           | Inr e \<Rightarrow> Inr (freeWindows @ [\<lparr> d_start = s, d_end = e \<rparr>])))"

text \<open>\<open>b.getTime() - a.getTime() >= minWindowMs\<close>; false when the difference is NaN.\<close>

definition longEnough :: "Date \<Rightarrow> Date \<Rightarrow> int \<Rightarrow> bool" where
  "longEnough a b minWindowMs =
     (case a of None \<Rightarrow> False
      | Some x \<Rightarrow> (case b of None \<Rightarrow> False | Some y \<Rightarrow> y - x \<ge> minWindowMs))"

text \<open>The filter and the clamp of a day, for the bounds \<open>dayStart\<close> and \<open>dayEnd\<close>.\<close>

definition touchesDay :: "Date \<Rightarrow> Date \<Rightarrow> DateSlot \<Rightarrow> bool" where
  "touchesDay dayStart dayEnd b = (date_lt (d_start b) dayEnd \<and> date_gt (d_end b) dayStart)"

definition clampBlock :: "Date \<Rightarrow> Date \<Rightarrow> DateSlot \<Rightarrow> DateSlot" where
  "clampBlock dayStart dayEnd b =
     \<lparr> d_start = (if date_lt (d_start b) dayStart then dayStart else d_start b),
       d_end = (if date_gt (d_end b) dayEnd then dayEnd else d_end b) \<rparr>"

text \<open>
  The key of \<open>.sort((a, b) => a.start.getTime() - b.start.getTime())\<close>. The sort is stable,
  as \<open>sort_key\<close> is. Every block that reaches the sort has a valid start (lemma
  \<open>blockedOf_valid\<close>), so the key of an Invalid Date is never read.
\<close>

definition startTime :: "DateSlot \<Rightarrow> int" where
  "startTime b = (case d_start b of Some t \<Rightarrow> t | None \<Rightarrow> 0)"

definition blockedOf :: "Host \<Rightarrow> TimeSlot list \<Rightarrow> Date \<Rightarrow> Date \<Rightarrow> DateSlot list" where
  "blockedOf H busyBlocks dayStart dayEnd =
     sort_key startTime
       (map (clampBlock dayStart dayEnd)
          (filter (touchesDay dayStart dayEnd) (map (toDates H) busyBlocks)))"

text \<open>
  The loop over the blocked intervals: the cursor and the windows pushed so far are the
  state; the result is the state after the last block, or the exception.
\<close>

fun walkBlocks ::
  "int \<Rightarrow> Date \<Rightarrow> DateSlot list \<Rightarrow> DateSlot list \<Rightarrow> error + (Date \<times> DateSlot list)" where
  "walkBlocks minWindowMs cursor [] freeWindows = Inr (cursor, freeWindows)"
| "walkBlocks minWindowMs cursor (block # rest) freeWindows =
     (case (if date_lt cursor (d_start block) \<and> longEnough cursor (d_start block) minWindowMs
            then pushWindow cursor (d_start block) freeWindows
            else Inr freeWindows) of
        Inl err \<Rightarrow> Inl err
      | Inr freeWindows' \<Rightarrow>
          walkBlocks minWindowMs
            (if date_gt (d_end block) cursor then d_end block else cursor) rest freeWindows')"

text \<open>The body of the loop over the days, for a day that is not skipped.\<close>

definition dayWindows ::
  "Host \<Rightarrow> TimeSlot list \<Rightarrow> int \<Rightarrow> int option \<times> int option \<Rightarrow> int option \<times> int option
     \<Rightarrow> Date \<Rightarrow> DateSlot list \<Rightarrow> error + DateSlot list" where
  "dayWindows H busyBlocks minWindowMs startHM endHM day freeWindows =
     (let dayStart = setHours H day (fst startHM) (snd startHM);
          dayEnd = setHours H day (fst endHM) (snd endHM);
          blocked = blockedOf H busyBlocks dayStart dayEnd
      in (case walkBlocks minWindowMs dayStart blocked freeWindows of
            Inl err \<Rightarrow> Inl err
          | Inr (cursor, freeWindows') \<Rightarrow>
              (if date_lt cursor dayEnd \<and> longEnough cursor dayEnd minWindowMs
               then pushWindow cursor dayEnd freeWindows'
               else Inr freeWindows')))"

text \<open>
  \<open>for (const day = new Date(start); day <= end; day.setDate(day.getDate() + 1))\<close>, with
  \<open>continue\<close> on a no-meeting day. Whether the loop ends is up to the host's step to the
  next day, so the loop is a partial function: \<open>None\<close> is a run that does not return,
  \<open>Some (Inl err)\<close> a run that throws, \<open>Some (Inr ws)\<close> a run that returns \<open>ws\<close>.
\<close>

partial_function (option) daysLoop ::
  "Host \<Rightarrow> TimeSlot list \<Rightarrow> DaysValue \<Rightarrow> int \<Rightarrow> int option \<times> int option \<Rightarrow> int option \<times> int option
     \<Rightarrow> Date \<Rightarrow> Date \<Rightarrow> DateSlot list \<Rightarrow> (error + DateSlot list) option" where
  "daysLoop H busyBlocks noDays minWindowMs startHM endHM day end_day freeWindows =
     (if date_le day end_day then
        (case array_includes noDays (getDay H day) of
           Inl err \<Rightarrow> Some (Inl err)
         | Inr skip \<Rightarrow>
             (if skip
              then daysLoop H busyBlocks noDays minWindowMs startHM endHM (nextDay H day) end_day
                     freeWindows
              else (case dayWindows H busyBlocks minWindowMs startHM endHM day freeWindows of
                      Inl err \<Rightarrow> Some (Inl err)
                    | Inr freeWindows' \<Rightarrow>
                        daysLoop H busyBlocks noDays minWindowMs startHM endHM (nextDay H day)
                          end_day freeWindows')))
      else Some (Inr freeWindows))"

declare daysLoop.simps [code]

text \<open>\<open>computeFreeSlots\<close>; \<open>durationMinutes\<close> is a whole number of minutes.\<close>

definition computeFreeSlots ::
  "Host \<Rightarrow> TimeSlot list \<Rightarrow> string \<Rightarrow> string \<Rightarrow> Preferences \<Rightarrow> int
     \<Rightarrow> (error + DateSlot list) option" where
  "computeFreeSlots H busyBlocks startDate endDate prefs durationMinutes =
     (let startHM = hourMin H (workingHoursStart prefs);
          endHM = hourMin H (workingHoursEnd prefs);
          minWindowMs = durationMinutes * 60 * 1000;
          start = newDate H (startDate @ ''T00:00:00'');
          end_day = newDate H (endDate @ ''T00:00:00'')
      in daysLoop H busyBlocks (noMeetingDays prefs) minWindowMs startHM endHM start end_day [])"

section \<open>Predicates of the properties\<close>

text \<open>
  A write that carries the conversation identifier and a state, and no other field.
\<close>

definition onlyState :: "string \<Rightarrow> string \<Rightarrow> UpsertParams" where
  "onlyState tid st =
     \<lparr> p_threadId = Some tid, p_state = Some st, p_requesterEmail = None,
       p_requesterName = None, p_attendeeEmail = None, p_meetingTitle = None,
       p_meetingDurationMinutes = None, p_proposedSlots = None, p_calendarEventId = None \<rparr>"

text \<open>
  Two intervals overlap when each starts before the other ends (with the comparisons of
  the language: an interval with an Invalid Date overlaps nothing).
\<close>

definition overlaps :: "DateSlot \<Rightarrow> DateSlot \<Rightarrow> bool" where
  "overlaps a b = (date_lt (d_start a) (d_end b) \<and> date_lt (d_start b) (d_end a))"

text \<open>A window has two valid dates, at least \<open>ms\<close> milliseconds apart.\<close>

definition lastsAtLeast :: "int \<Rightarrow> DateSlot \<Rightarrow> bool" where
  "lastsAtLeast ms w =
     (case d_start w of None \<Rightarrow> False
      | Some s \<Rightarrow> (case d_end w of None \<Rightarrow> False | Some e \<Rightarrow> ms \<le> e - s))"

text \<open>A window lies within the working hours of a day.\<close>

definition withinDay :: "Date \<Rightarrow> Date \<Rightarrow> DateSlot \<Rightarrow> bool" where
  "withinDay dayStart dayEnd w = (date_le dayStart (d_start w) \<and> date_le (d_end w) dayEnd)"

text \<open>A window overlaps no input busy block, each clamped to the bounds of the day.\<close>

definition avoidsBusy :: "Host \<Rightarrow> TimeSlot list \<Rightarrow> Date \<Rightarrow> Date \<Rightarrow> DateSlot \<Rightarrow> bool" where
  "avoidsBusy H busyBlocks dayStart dayEnd w =
     list_all (\<lambda>b. \<not> overlaps w (clampBlock dayStart dayEnd (toDates H b))) busyBlocks"

text \<open>The working-hour bounds of a day, as \<open>computeFreeSlots\<close> computes them.\<close>

definition dayStartOf :: "Host \<Rightarrow> Preferences \<Rightarrow> Date \<Rightarrow> Date" where
  "dayStartOf H prefs day =
     setHours H day (fst (hourMin H (workingHoursStart prefs)))
       (snd (hourMin H (workingHoursStart prefs)))"

definition dayEndOf :: "Host \<Rightarrow> Preferences \<Rightarrow> Date \<Rightarrow> Date" where
  "dayEndOf H prefs day =
     setHours H day (fst (hourMin H (workingHoursEnd prefs)))
       (snd (hourMin H (workingHoursEnd prefs)))"

text \<open>The day the loop reaches after \<open>k\<close> steps from the start date.\<close>

definition iteratedDay :: "Host \<Rightarrow> string \<Rightarrow> nat \<Rightarrow> Date" where
  "iteratedDay H startDate k = (nextDay H ^^ k) (newDate H (startDate @ ''T00:00:00''))"

text \<open>
  \<open>w\<close> is a window of the day \<open>day\<close>: the day is in the range and is no no-meeting day,
  the window lies within its working hours, and it overlaps no busy block clamped to them.
\<close>

definition windowOfDay ::
  "Host \<Rightarrow> TimeSlot list \<Rightarrow> Preferences \<Rightarrow> Date \<Rightarrow> Date \<Rightarrow> DateSlot \<Rightarrow> bool" where
  "windowOfDay H busyBlocks prefs end_day day w =
     (date_le day end_day \<and>
      array_includes (noMeetingDays prefs) (getDay H day) = Inr False \<and>
      withinDay (dayStartOf H prefs day) (dayEndOf H prefs day) w \<and>
      avoidsBusy H busyBlocks (dayStartOf H prefs day) (dayEndOf H prefs day) w)"

text \<open>
  The host's step to the next day moves forward: the date after \<open>setDate(getDate() + 1)\<close>
  is invalid or later. This is what makes the loop over the days end.
\<close>

definition hostAdvances :: "Host \<Rightarrow> bool" where
  "hostAdvances H = (\<forall>t. case dayAfter H t of None \<Rightarrow> True | Some t' \<Rightarrow> t < t')"



section \<open>Example values\<close>

text \<open>
  A thread awaiting confirmation, with proposed slots and a calendar event from an
  earlier booking; the same thread once booked; a calendar that accepts every call and
  one whose update call fails.
\<close>

definition demoRow :: ThreadRow where
  "demoRow =
     \<lparr> row_id = 1, thread_id = ''th-1'', row_state = ''awaiting_confirmation'',
       proposed_slots =
         Some [\<lparr> slot_start = ''2024-01-02T10:00:00Z'', slot_end = ''2024-01-02T10:30:00Z'' \<rparr>],
       requester_email = ''ann@example.com'', requester_name = Some ''Ann'',
       attendee_email = None, meeting_title = Some ''Sync'', meeting_duration_minutes = Some 30,
       calendar_event_id = Some ''evt-1'', created_at = 100, updated_at = 100 \<rparr>"

definition demoThread :: Thread where
  "demoThread =
     \<lparr> t_id = 1, threadId = ''th-1'', state = ''awaiting_confirmation'',
       proposedSlots =
         Some [\<lparr> slot_start = ''2024-01-02T10:00:00Z'', slot_end = ''2024-01-02T10:30:00Z'' \<rparr>],
       requesterEmail = ''ann@example.com'', requesterName = Some ''Ann'',
       attendeeEmail = None, meetingTitle = Some ''Sync'', meetingDurationMinutes = Some 30,
       calendarEventId = Some ''evt-1'', createdAt = 100, updatedAt = 100 \<rparr>"

definition demoDb :: Db where
  "demoDb = \<lparr> preferences = Map.empty, threads = [''th-1'' \<mapsto> demoRow], next_id = 2 \<rparr>"


definition okCalendar :: Calendar where
  "okCalendar =
     \<lparr> patch_resolves = (\<lambda>eid inp. True),
       insert_returns = (\<lambda>inp meet.
         Some \<lparr> eventId = ''evt-new'', eventLink = ''https://cal/evt-new'', meetLink = None \<rparr>),
       cancel_resolves = (\<lambda>eid. True) \<rparr>"

definition staleCalendar :: Calendar where
  "staleCalendar = okCalendar \<lparr> patch_resolves := (\<lambda>eid inp. False) \<rparr>"

definition demoBooking :: BookMeetingInput where
  "demoBooking =
     \<lparr> i_title = ''Sync'', i_start = ''2024-01-03T10:00:00Z'', i_end = ''2024-01-03T10:30:00Z'',
       i_attendeeEmail = ''ann@example.com'', i_attendeeName = Some ''Ann'', i_description = None,
       i_existingEventId = Some ''evt-2'' \<rparr>"

text \<open>
  Example hosts: a time zone with one change of offset. Local time is UTC plus
  \<open>off0\<close> milliseconds up to the instant \<open>change\<close> and UTC plus \<open>off1\<close> from then on.
  \<open>zoneUTC\<close> is the language's conversion of a local time to UTC: the instant with the
  offset before the change when that instant lies before the change; otherwise the
  instant with the offset after it when that one lies at or after the change; and, for
  a local time the change skips, the instant with the offset before the change.
\<close>

definition zoneOffset :: "int \<Rightarrow> int \<Rightarrow> int \<Rightarrow> int \<Rightarrow> int" where
  "zoneOffset off0 off1 change t = (if t < change then off0 else off1)"

definition zoneUTC :: "int \<Rightarrow> int \<Rightarrow> int \<Rightarrow> int \<Rightarrow> int" where
  "zoneUTC off0 off1 change l =
     (if l - off0 < change then l - off0
      else if change \<le> l - off1 then l - off1
      else l - off0)"

definition zoneHost ::
  "(string \<times> int) list \<Rightarrow> (string \<times> int) list \<Rightarrow> int \<Rightarrow> int \<Rightarrow> int \<Rightarrow> Host" where
  "zoneHost dates numbers off0 off1 change =
     \<lparr> newDate = map_of dates,
       Number = map_of numbers,
       localTimeOn = (\<lambda>t h m.
         Some (zoneUTC off0 off1 change
                 (((t + zoneOffset off0 off1 change t) div 86400000) * 86400000
                    + h * 3600000 + m * 60000))),
       dayAfter = (\<lambda>t.
         Some (zoneUTC off0 off1 change (t + zoneOffset off0 off1 change t + 86400000))),
       weekday = (\<lambda>t. (((t + zoneOffset off0 off1 change t) div 86400000) + 4) mod 7) \<rparr>"

text \<open>
  The scenario of the specification: working hours 09:00 to 18:00, no meetings on
  Sunday and Saturday, one busy block from 10:00 to 11:00 on Tuesday 2024-01-02, in a host
  on UTC. The host gives the time values of the date strings and the numbers of the
  numerals that occur.
\<close>

definition demoHost :: Host where
  "demoHost =
     zoneHost
       [(''2024-01-02T00:00:00'', 1704153600000),
        (''2024-01-02T10:00:00Z'', 1704189600000),
        (''2024-01-02T11:00:00Z'', 1704193200000)]
       [(''00'', 0), (''09'', 9), (''18'', 18)]
       0 0 0"

definition demoPrefs :: Preferences where
  "demoPrefs =
     \<lparr> workingHoursStart = ''09:00'', workingHoursEnd = ''18:00'',
       timezone = ''UTC'', defaultMeetingDurationMinutes = 30,
       bufferBeforeMinutes = 5, bufferAfterMinutes = 5,
       preferredPlatform = ''Google Meet'', maxMeetingsPerDay = 6,
       noMeetingDays = DaysArray [0, 6], customRules = [] \<rparr>"

definition demoBusy :: "TimeSlot list" where
  "demoBusy = [\<lparr> slot_start = ''2024-01-02T10:00:00Z'', slot_end = ''2024-01-02T11:00:00Z'' \<rparr>]"

definition morningWindow :: DateSlot where
  "morningWindow = \<lparr> d_start = Some 1704186000000, d_end = Some 1704189600000 \<rparr>"

definition afternoonWindow :: DateSlot where
  "afternoonWindow = \<lparr> d_start = Some 1704193200000, d_end = Some 1704218400000 \<rparr>"

text \<open>
  A host in America/Los_Angeles around the change to daylight time of Sunday 2024-03-10:
  local time is UTC minus 8 hours up to 2024-03-10T10:00:00Z and UTC minus 7 hours from
  then on, so that the local times from 02:00 to 03:00 of that day are skipped. The range
  from Friday 2024-03-08 to Monday 2024-03-11 crosses the change; there is one busy block,
  on Monday from 10:00 to 11:00 local time.
\<close>

definition laHost :: Host where
  "laHost =
     zoneHost
       [(''2024-03-08T00:00:00'', 1709884800000),
        (''2024-03-10T00:00:00'', 1710057600000),
        (''2024-03-11T00:00:00'', 1710140400000),
        (''2024-03-11T10:00:00-07:00'', 1710176400000),
        (''2024-03-11T11:00:00-07:00'', 1710180000000)]
       [(''00'', 0), (''02'', 2), (''03'', 3), (''09'', 9), (''18'', 18), (''30'', 30)]
       (- 28800000) (- 25200000) 1710064800000"

definition laBusy :: "TimeSlot list" where
  "laBusy =
     [\<lparr> slot_start = ''2024-03-11T10:00:00-07:00'', slot_end = ''2024-03-11T11:00:00-07:00'' \<rparr>]"

definition fridayWindow :: DateSlot where
  "fridayWindow = \<lparr> d_start = Some 1709917200000, d_end = Some 1709949600000 \<rparr>"

definition mondayMorning :: DateSlot where
  "mondayMorning = \<lparr> d_start = Some 1710172800000, d_end = Some 1710176400000 \<rparr>"

definition mondayAfternoon :: DateSlot where
  "mondayAfternoon = \<lparr> d_start = Some 1710180000000, d_end = Some 1710205200000 \<rparr>"



section \<open>The thread store\<close>

lemma getThread_upd:
  "getThread (db \<lparr> threads := (threads db)(tid \<mapsto> row) \<rparr>) tid = Some (rowToThread row)"
  by (simp add: getThread_def)

lemma upsertThread_existing:
  assumes "threads db tid = Some old" "p_threadId p = Some tid" "p_state p = Some st"
  shows "upsertThread now db p =
           (Inr (rowToThread (conflictUpdate now old (excludedRow now (next_id db) tid st p))),
            db \<lparr> threads :=
                   (threads db)(tid \<mapsto> conflictUpdate now old (excludedRow now (next_id db) tid st p)) \<rparr>)"
  using assms by (simp add: upsertThread_def Let_def getThread_def)

lemma upsertThread_new:
  assumes "threads db tid = None" "p_threadId p = Some tid" "p_state p = Some st"
  shows "upsertThread now db p =
           (Inr (rowToThread (excludedRow now (next_id db) tid st p)),
            db \<lparr> threads := (threads db)(tid \<mapsto> excludedRow now (next_id db) tid st p),
                 next_id := Suc (next_id db) \<rparr>)"
  using assms by (simp add: upsertThread_def Let_def getThread_def)

lemma demoThread_row: "rowToThread demoRow = demoThread"
  by (simp add: rowToThread_def demoRow_def demoThread_def)

lemma getThread_demoDb: "getThread demoDb ''th-1'' = Some demoThread"
  by (simp add: getThread_def demoDb_def demoThread_row)


text \<open>
  Claim C1. An upsert on an existing thread record, keyed by the conversation identifier,
  succeeds; every field the write omits keeps its stored value, while \<open>state\<close> and
  \<open>proposedSlots\<close> take the supplied value, a missing \<open>proposedSlots\<close> clearing the stored
  one. The row's id, key and creation time stay.
\<close>

theorem upsertThread_merge_by_field:
  assumes "getThread db tid = Some told" and "p_threadId p = Some tid" and "p_state p = Some st"
  shows "\<exists>t db'. upsertThread now db p = (Inr t, db') \<and> getThread db' tid = Some t \<and>
           state t = st \<and>
           proposedSlots t = p_proposedSlots p \<and>
           (p_requesterEmail p = None \<longrightarrow> requesterEmail t = requesterEmail told) \<and>
           (p_requesterName p = None \<longrightarrow> requesterName t = requesterName told) \<and>
           (p_attendeeEmail p = None \<longrightarrow> attendeeEmail t = attendeeEmail told) \<and>
           (p_meetingTitle p = None \<longrightarrow> meetingTitle t = meetingTitle told) \<and>
           (p_meetingDurationMinutes p = None \<longrightarrow>
              meetingDurationMinutes t = meetingDurationMinutes told) \<and>
           (p_calendarEventId p = None \<longrightarrow> calendarEventId t = calendarEventId told) \<and>
           t_id t = t_id told \<and> threadId t = threadId told \<and> createdAt t = createdAt told"
proof -
  from assms(1) obtain old where old: "threads db tid = Some old" and told: "told = rowToThread old"
    by (auto simp: getThread_def split: option.splits)
  show ?thesis
    unfolding upsertThread_existing [OF old assms(2) assms(3)]
    by (auto simp: getThread_def told rowToThread_def conflictUpdate_def excludedRow_def COALESCE_def
        split: option.splits)
qed

text \<open>
  On the example thread, a write of the attendee and of the state alone: the state is
  the new one, the proposed slots are cleared, the attendee is set, and the requester's
  name, the title and the event reference are the stored ones.
\<close>

theorem upsertThread_merge_by_field_witness:
  "getThread demoDb ''th-1'' = Some demoThread \<and>
   (\<exists>t db'. upsertThread 200 demoDb
               ((onlyState ''th-1'' ''booked'') \<lparr> p_attendeeEmail := Some ''ann@example.com'' \<rparr>)
               = (Inr t, db') \<and>
            getThread db' ''th-1'' = Some t \<and> state t = ''booked'' \<and> proposedSlots t = None \<and>
            requesterEmail t = ''ann@example.com'' \<and> requesterName t = Some ''Ann'' \<and>
            meetingTitle t = Some ''Sync'' \<and> meetingDurationMinutes t = Some 30 \<and>
            calendarEventId t = Some ''evt-1'')"
  using upsertThread_merge_by_field [OF getThread_demoDb,
          of "(onlyState ''th-1'' ''booked'') \<lparr> p_attendeeEmail := Some ''ann@example.com'' \<rparr>"
             "''booked''" 200]
        getThread_demoDb
  by (auto simp: onlyState_def demoThread_def)

text \<open>
  Claim C3, as the code has it. A write of the conversation identifier and the state
  \<open>booked\<close> alone, on an existing thread, keeps the stored identity fields (requester,
  attendee, title, duration, event reference) and changes the state, the update
  timestamp, and the proposed slots, which it clears.
\<close>

theorem upsertThread_state_only:
  assumes "getThread db tid = Some told"
  shows "fst (upsertThread now db (onlyState tid ''booked''))
           = Inr (told \<lparr> state := ''booked'', proposedSlots := None, updatedAt := now \<rparr>) \<and>
         getThread (snd (upsertThread now db (onlyState tid ''booked''))) tid
           = Some (told \<lparr> state := ''booked'', proposedSlots := None, updatedAt := now \<rparr>)"
proof -
  from assms obtain old where old: "threads db tid = Some old" and told: "told = rowToThread old"
    by (auto simp: getThread_def split: option.splits)
  have p: "p_threadId (onlyState tid ''booked'') = Some tid"
    "p_state (onlyState tid ''booked'') = Some ''booked''"
    by (simp_all add: onlyState_def)
  show ?thesis
    unfolding upsertThread_existing [OF old p]
    by (simp add: getThread_def told rowToThread_def conflictUpdate_def excludedRow_def
        COALESCE_def onlyState_def)
qed

theorem upsertThread_state_only_witness:
  "getThread demoDb ''th-1'' = Some demoThread \<and>
   fst (upsertThread 200 demoDb (onlyState ''th-1'' ''booked''))
     = Inr (demoThread \<lparr> state := ''booked'', proposedSlots := None, updatedAt := 200 \<rparr>)"
  using upsertThread_state_only [OF getThread_demoDb, of 200] getThread_demoDb by simp

text \<open>
  The stored thread has proposed slots; after the write of the state alone it has none:
  more than the state and the timestamp has changed.
\<close>

theorem upsertThread_state_only_clears_slots:
  "getThread demoDb ''th-1'' = Some demoThread \<and>
   proposedSlots demoThread
     = Some [\<lparr> slot_start = ''2024-01-02T10:00:00Z'', slot_end = ''2024-01-02T10:30:00Z'' \<rparr>] \<and>
   map_sum id proposedSlots (fst (upsertThread 200 demoDb (onlyState ''th-1'' ''booked''))) = Inr None"
proof -
  have old: "threads demoDb ''th-1'' = Some demoRow" by (simp add: demoDb_def)
  have p: "p_threadId (onlyState ''th-1'' ''booked'') = Some ''th-1''"
    "p_state (onlyState ''th-1'' ''booked'') = Some ''booked''"
    by (simp_all add: onlyState_def)
  show ?thesis
    unfolding upsertThread_existing [OF old p]
    by (simp add: getThread_demoDb rowToThread_def conflictUpdate_def excludedRow_def
        onlyState_def demoThread_def)
qed

lemma upsertThread_accepts:
  assumes "p_threadId p = Some tid" and "p_state p = Some st"
  shows "\<exists>t. fst (upsertThread now db p) = Inr t \<and> state t = st \<and>
             getThread (snd (upsertThread now db p)) tid = Some t"
proof (cases "threads db tid")
  case None
  show ?thesis unfolding upsertThread_new [OF None assms]
    by (simp add: getThread_def rowToThread_def excludedRow_def)
next
  case (Some old)
  show ?thesis unfolding upsertThread_existing [OF Some assms]
    by (simp add: getThread_def rowToThread_def excludedRow_def conflictUpdate_def)
qed

lemma upsertThread_refuses:
  assumes "p_threadId p = None \<or> p_state p = None"
  shows "upsertThread now db p = (Inl SqliteError, db)"
  using assms by (auto simp: upsertThread_def split: option.splits)

text \<open>
  Claim C4, as the code has it. The store does not look at the value of the state: a
  write that carries the conversation identifier and any state text, one of the four
  values or not, is accepted, and the thread is stored with that state. A write that
  misses the conversation identifier or the state is refused with an error and leaves
  the database as it was. The same holds through \<open>toolUpdateThreadState\<close>.
\<close>

theorem thread_write_validation:
  "(p_threadId p = Some tid \<and> p_state p = Some st \<longrightarrow>
      (\<exists>t. fst (upsertThread now db p) = Inr t \<and> state t = st \<and>
           getThread (snd (upsertThread now db p)) tid = Some t)) \<and>
   (p_threadId p = None \<or> p_state p = None \<longrightarrow> upsertThread now db p = (Inl SqliteError, db)) \<and>
   (u_threadId u = Some tid \<and> u_state u = Some st \<longrightarrow>
      (\<exists>t. fst (toolUpdateThreadState now db u) = Inr t \<and> state t = st \<and>
           getThread (snd (toolUpdateThreadState now db u)) tid = Some t)) \<and>
   (u_threadId u = None \<or> u_state u = None \<longrightarrow>
      toolUpdateThreadState now db u = (Inl SqliteError, db))"
  using upsertThread_accepts upsertThread_refuses
  by (simp add: toolUpdateThreadState_def)

theorem thread_write_validation_witness:
  "(\<exists>t. fst (upsertThread 200 demoDb (onlyState ''th-1'' ''on_hold'')) = Inr t \<and>
        state t = ''on_hold'' \<and>
        getThread (snd (upsertThread 200 demoDb (onlyState ''th-1'' ''on_hold''))) ''th-1'' = Some t) \<and>
   upsertThread 200 demoDb ((onlyState ''th-1'' ''booked'') \<lparr> p_state := None \<rparr>)
     = (Inl SqliteError, demoDb)"
  using thread_write_validation
          [of "onlyState ''th-1'' ''on_hold''" "''th-1''" "''on_hold''" 200 demoDb]
        thread_write_validation
          [of "(onlyState ''th-1'' ''booked'') \<lparr> p_state := None \<rparr>" "''th-1''" "''booked''" 200 demoDb]
  by (simp add: onlyState_def)

text \<open>
  \<open>on_hold\<close> is none of the four values; the write is not refused, and the stored record
  is no longer the prior one: its state is \<open>on_hold\<close>.
\<close>

theorem unrecognized_state_is_stored:
  "''on_hold'' \<notin> set ThreadState \<and>
   getThread demoDb ''th-1'' = Some demoThread \<and>
   fst (upsertThread 200 demoDb (onlyState ''th-1'' ''on_hold''))
     = Inr (demoThread \<lparr> state := ''on_hold'', proposedSlots := None, updatedAt := 200 \<rparr>) \<and>
   getThread (snd (upsertThread 200 demoDb (onlyState ''th-1'' ''on_hold''))) ''th-1''
     = Some (demoThread \<lparr> state := ''on_hold'', proposedSlots := None, updatedAt := 200 \<rparr>)"
proof -
  have old: "threads demoDb ''th-1'' = Some demoRow" by (simp add: demoDb_def)
  have p: "p_threadId (onlyState ''th-1'' ''on_hold'') = Some ''th-1''"
    "p_state (onlyState ''th-1'' ''on_hold'') = Some ''on_hold''"
    by (simp_all add: onlyState_def)
  have "''on_hold'' \<notin> set ThreadState"
    by (simp add: ThreadState_def)
  then show ?thesis
    unfolding upsertThread_existing [OF old p]
    by (simp add: getThread_demoDb getThread_upd rowToThread_def conflictUpdate_def excludedRow_def
        COALESCE_def onlyState_def demoThread_def demoRow_def)
qed

section \<open>The preference tool\<close>

lemma toolSetPreference_unknown_key:
  "key \<notin> set (map fst DEFAULT_PREFERENCES) \<Longrightarrow>
     toolSetPreference db key v = (Inl (UnknownPreferenceKey key), db)"
  by (auto simp: toolSetPreference_def validKeys_def DEFAULT_PREFERENCES_def)

lemma toolSetPreference_valid_key:
  "key \<in> set validKeys \<Longrightarrow>
     toolSetPreference db key v = (Inr True, setPreference db key v) \<and>
     preferences (setPreference db key v) key = Some v"
  by (simp add: toolSetPreference_def setPreference_def)

text \<open>
  Claim C8, at the key the code misses. \<open>customRules\<close> is a field of the preference
  record (a key of \<open>DEFAULT_PREFERENCES\<close>, read by \<open>getPreferences\<close>), and the write
  operation rejects it as an unknown key, leaving the store as it was. (Every key that
  is no field is rejected, and each of the nine other fields is accepted: the two lemmas
  above.)
\<close>

theorem toolSetPreference_rejects_customRules:
  "''customRules'' \<in> set (map fst DEFAULT_PREFERENCES) \<and>
   toolSetPreference db ''customRules'' v = (Inl (UnknownPreferenceKey ''customRules''), db)"
  by (simp add: toolSetPreference_def validKeys_def DEFAULT_PREFERENCES_def)

section \<open>Booking and cancelling\<close>

text \<open>The write that marks a thread as booked always succeeds and stores the event reference.\<close>

lemma mark_booked:
  "\<exists>t db'. toolUpdateThreadState now db
               \<lparr> u_threadId = Some tid, u_state = Some ''booked'', u_proposedSlots = None,
                 u_attendeeEmail = Some attendee, u_meetingTitle = None,
                 u_meetingDurationMinutes = None, u_calendarEventId = Some eid \<rparr> = (Inr t, db') \<and>
            getThread db' tid = Some t \<and> state t = ''booked'' \<and> calendarEventId t = Some eid \<and>
            attendeeEmail t = Some attendee"
proof (cases "threads db tid")
  case None
  show ?thesis
    unfolding toolUpdateThreadState_def
    by (subst upsertThread_new [OF None, where st = "''booked''"])
       (simp_all add: getThread_def rowToThread_def excludedRow_def)
next
  case (Some old)
  show ?thesis
    unfolding toolUpdateThreadState_def
    by (subst upsertThread_existing [OF Some, where st = "''booked''"])
       (simp_all add: getThread_def rowToThread_def excludedRow_def conflictUpdate_def COALESCE_def)
qed

lemma book_meeting_after_calendar:
  assumes "bookOnCalendar cal (preferredPlatform prefs = ''Google Meet'')
             (existingEventIdOf db tid inp) inp = (Inr booking, calls)"
  shows "\<exists>db'. book_meeting cal now prefs db tid inp = (Inr booking, db', calls) \<and>
               map_option state (getThread db' tid) = Some ''booked'' \<and>
               map_option calendarEventId (getThread db' tid) = Some (Some (eventId booking))"
proof -
  from mark_booked [of now db tid "i_attendeeEmail inp" "eventId booking"]
  obtain t db' where "toolUpdateThreadState now db
               \<lparr> u_threadId = Some tid, u_state = Some ''booked'', u_proposedSlots = None,
                 u_attendeeEmail = Some (i_attendeeEmail inp), u_meetingTitle = None,
                 u_meetingDurationMinutes = None, u_calendarEventId = Some (eventId booking) \<rparr>
               = (Inr t, db')"
    "getThread db' tid = Some t" "state t = ''booked''" "calendarEventId t = Some (eventId booking)"
    by blast
  then show ?thesis
    by (simp add: book_meeting_def Let_def assms)
qed

lemma book_meeting_create_fails:
  assumes "existingEventIdOf db tid inp = Some eid" and "eid \<noteq> []"
    and "\<not> patch_resolves cal eid inp"
    and "insert_returns cal inp (preferredPlatform prefs = ''Google Meet'') = None"
  shows "book_meeting cal now prefs db tid inp = (Inl CalendarError, db, [UpdateEvent eid, CreateEvent])"
  using assms
  by (simp add: book_meeting_def Let_def bookOnCalendar_def toolUpdateCalendarEvent_def
      toolCreateCalendarEvent_def)

text \<open>
  Claim C2, as the code has it. The booking outcome has no \<open>created\<close> field; whether an
  event was created is read from the calendar calls made. Let a candidate event reference
  be available: the one supplied with the request if there is one, otherwise the one
  stored on the thread. If the update call succeeds, no event is created, the outcome
  carries the candidate reference and the thread is booked with the candidate reference
  stored, which is the prior reference when none was supplied with the request. If the
  update call fails and the create call succeeds, an event is created after the failed
  update, the call returns the new booking and no error, and the thread is booked with
  the new reference stored.
\<close>

theorem book_meeting_reconcile:
  assumes "existingEventIdOf db tid inp = Some eid" and "eid \<noteq> []"
  shows "(patch_resolves cal eid inp \<longrightarrow>
            (\<exists>db'. book_meeting cal now prefs db tid inp
                      = (Inr \<lparr> eventId = eid, eventLink = [], meetLink = None \<rparr>, db', [UpdateEvent eid]) \<and>
                   map_option state (getThread db' tid) = Some ''booked'' \<and>
                   map_option calendarEventId (getThread db' tid) = Some (Some eid) \<and>
                   (i_existingEventId inp = None \<longrightarrow>
                      map_option calendarEventId (getThread db' tid)
                        = map_option calendarEventId (getThread db tid)))) \<and>
         (\<not> patch_resolves cal eid inp \<and>
          insert_returns cal inp (preferredPlatform prefs = ''Google Meet'') = Some booking \<longrightarrow>
            (\<exists>db'. book_meeting cal now prefs db tid inp
                      = (Inr booking, db', [UpdateEvent eid, CreateEvent]) \<and>
                   map_option state (getThread db' tid) = Some ''booked'' \<and>
                   map_option calendarEventId (getThread db' tid) = Some (Some (eventId booking))))"
proof (intro conjI impI)
  assume ok: "patch_resolves cal eid inp"
  have cal: "bookOnCalendar cal (preferredPlatform prefs = ''Google Meet'')
               (existingEventIdOf db tid inp) inp
           = (Inr \<lparr> eventId = eid, eventLink = [], meetLink = None \<rparr>, [UpdateEvent eid])"
    using assms ok by (simp add: bookOnCalendar_def toolUpdateCalendarEvent_def)
  have stored: "map_option calendarEventId (getThread db tid) = Some (Some eid)"
    if "i_existingEventId inp = None"
    using assms(1) that
    by (auto simp: existingEventIdOf_def toolGetThread_def split: option.splits)
  from book_meeting_after_calendar [OF cal, of now] stored
  show "\<exists>db'. book_meeting cal now prefs db tid inp
                      = (Inr \<lparr> eventId = eid, eventLink = [], meetLink = None \<rparr>, db', [UpdateEvent eid]) \<and>
                   map_option state (getThread db' tid) = Some ''booked'' \<and>
                   map_option calendarEventId (getThread db' tid) = Some (Some eid) \<and>
                   (i_existingEventId inp = None \<longrightarrow>
                      map_option calendarEventId (getThread db' tid)
                        = map_option calendarEventId (getThread db tid))"
    by auto
next
  assume "\<not> patch_resolves cal eid inp \<and>
          insert_returns cal inp (preferredPlatform prefs = ''Google Meet'') = Some booking"
  then have cal: "bookOnCalendar cal (preferredPlatform prefs = ''Google Meet'')
                    (existingEventIdOf db tid inp) inp
           = (Inr booking, [UpdateEvent eid, CreateEvent])"
    using assms
    by (simp add: bookOnCalendar_def toolUpdateCalendarEvent_def toolCreateCalendarEvent_def)
  from book_meeting_after_calendar [OF cal, of now]
  show "\<exists>db'. book_meeting cal now prefs db tid inp
                      = (Inr booking, db', [UpdateEvent eid, CreateEvent]) \<and>
                   map_option state (getThread db' tid) = Some ''booked'' \<and>
                   map_option calendarEventId (getThread db' tid) = Some (Some (eventId booking))" .
qed

lemma demo_candidate: "existingEventIdOf demoDb ''th-1'' demoBooking = Some ''evt-2''"
  by (simp add: existingEventIdOf_def demoBooking_def)

lemma demo_stored_candidate:
  "existingEventIdOf demoDb ''th-1'' (demoBooking \<lparr> i_existingEventId := None \<rparr>) = Some ''evt-1''"
  by (simp add: existingEventIdOf_def demoBooking_def toolGetThread_def getThread_demoDb demoThread_def)

text \<open>
  A reschedule of the example thread with no reference supplied: with a calendar that
  accepts the update the stored reference stays; with one whose update fails the new
  event's reference is stored.
\<close>

theorem book_meeting_reconcile_witness:
  "existingEventIdOf demoDb ''th-1'' (demoBooking \<lparr> i_existingEventId := None \<rparr>) = Some ''evt-1'' \<and>
   (\<exists>db'. book_meeting okCalendar 200 demoPrefs demoDb ''th-1''
             (demoBooking \<lparr> i_existingEventId := None \<rparr>)
            = (Inr \<lparr> eventId = ''evt-1'', eventLink = [], meetLink = None \<rparr>, db',
               [UpdateEvent ''evt-1'']) \<and>
          map_option calendarEventId (getThread db' ''th-1'')
            = map_option calendarEventId (getThread demoDb ''th-1'')) \<and>
   (\<exists>db'. book_meeting staleCalendar 200 demoPrefs demoDb ''th-1''
             (demoBooking \<lparr> i_existingEventId := None \<rparr>)
            = (Inr \<lparr> eventId = ''evt-new'', eventLink = ''https://cal/evt-new'', meetLink = None \<rparr>,
               db', [UpdateEvent ''evt-1'', CreateEvent]) \<and>
          map_option calendarEventId (getThread db' ''th-1'') = Some (Some ''evt-new''))"
proof -
  let ?inp = "demoBooking \<lparr> i_existingEventId := None \<rparr>"
  let ?new = "\<lparr> eventId = ''evt-new'', eventLink = ''https://cal/evt-new'', meetLink = None \<rparr>"
  have ne: "''evt-1'' \<noteq> []" by simp
  have ok: "patch_resolves okCalendar ''evt-1'' ?inp" by (simp add: okCalendar_def)
  have stale: "\<not> patch_resolves staleCalendar ''evt-1'' ?inp \<and>
               insert_returns staleCalendar ?inp (preferredPlatform demoPrefs = ''Google Meet'')
                 = Some ?new"
    by (simp add: staleCalendar_def okCalendar_def)
  have absent: "i_existingEventId ?inp = None" by simp
  from book_meeting_reconcile [OF demo_stored_candidate ne, of okCalendar 200 demoPrefs ?new]
    ok absent
  have a: "\<exists>db'. book_meeting okCalendar 200 demoPrefs demoDb ''th-1'' ?inp
            = (Inr \<lparr> eventId = ''evt-1'', eventLink = [], meetLink = None \<rparr>, db',
               [UpdateEvent ''evt-1'']) \<and>
          map_option calendarEventId (getThread db' ''th-1'')
            = map_option calendarEventId (getThread demoDb ''th-1'')"
    by blast
  from book_meeting_reconcile [OF demo_stored_candidate ne, of staleCalendar 200 demoPrefs ?new]
    stale
  have b: "\<exists>db'. book_meeting staleCalendar 200 demoPrefs demoDb ''th-1'' ?inp
            = (Inr ?new, db', [UpdateEvent ''evt-1'', CreateEvent]) \<and>
          map_option calendarEventId (getThread db' ''th-1'') = Some (Some ''evt-new'')"
    by (simp only: BookingResult.simps) blast
  from demo_stored_candidate a b show ?thesis by blast
qed

text \<open>
  The example thread stores \<open>evt-1\<close>; the request supplies \<open>evt-2\<close>, and the update call
  succeeds. No event is created, and the thread's event reference is now \<open>evt-2\<close>: it
  has changed.
\<close>

theorem book_meeting_replaces_reference:
  "map_option calendarEventId (getThread demoDb ''th-1'') = Some (Some ''evt-1'') \<and>
   existingEventIdOf demoDb ''th-1'' demoBooking = Some ''evt-2'' \<and>
   patch_resolves okCalendar ''evt-2'' demoBooking \<and>
   fst (book_meeting okCalendar 200 demoPrefs demoDb ''th-1'' demoBooking)
     = Inr \<lparr> eventId = ''evt-2'', eventLink = [], meetLink = None \<rparr> \<and>
   snd (snd (book_meeting okCalendar 200 demoPrefs demoDb ''th-1'' demoBooking))
     = [UpdateEvent ''evt-2''] \<and>
   map_option calendarEventId
     (getThread (fst (snd (book_meeting okCalendar 200 demoPrefs demoDb ''th-1'' demoBooking))) ''th-1'')
     = Some (Some ''evt-2'')"
proof -
  have ok: "patch_resolves okCalendar ''evt-2'' demoBooking" by (simp add: okCalendar_def)
  have cal: "bookOnCalendar okCalendar (preferredPlatform demoPrefs = ''Google Meet'')
               (existingEventIdOf demoDb ''th-1'' demoBooking) demoBooking
           = (Inr \<lparr> eventId = ''evt-2'', eventLink = [], meetLink = None \<rparr>, [UpdateEvent ''evt-2''])"
    using ok by (simp add: demo_candidate bookOnCalendar_def toolUpdateCalendarEvent_def)
  from book_meeting_after_calendar [OF cal, of 200]
  obtain db' where "book_meeting okCalendar 200 demoPrefs demoDb ''th-1'' demoBooking
                      = (Inr \<lparr> eventId = ''evt-2'', eventLink = [], meetLink = None \<rparr>, db',
                         [UpdateEvent ''evt-2''])"
    "map_option calendarEventId (getThread db' ''th-1'') = Some (Some ''evt-2'')"
    by auto
  then show ?thesis
    using ok demo_candidate by (simp add: getThread_demoDb demoThread_def)
qed


lemma cancel_meeting_preferences_throw:
  "cancel_meeting cal (Inl err) db eid = (Inl err, db, [])"
  by (simp add: cancel_meeting_def)

lemma cancel_meeting_calendar_fails:
  "\<not> cancel_resolves cal eid \<Longrightarrow>
     cancel_meeting cal (Inr prefs) db eid = (Inl CalendarError, db, [CancelEvent eid])"
  by (simp add: cancel_meeting_def toolCancelCalendarEvent_def)



section \<open>The free-window computation\<close>

lemma date_lt_Some [simp]: "date_lt (Some x) (Some y) = (x < y)"
  by (simp add: date_lt_def)

lemma date_gt_Some [simp]: "date_gt (Some x) (Some y) = (y < x)"
  by (simp add: date_gt_def)

lemma date_le_Some [simp]: "date_le (Some x) (Some y) = (x \<le> y)"
  by (simp add: date_le_def)

lemma date_lt_None [simp]: "date_lt None b = False" "date_lt a None = False"
  by (simp_all add: date_lt_def split: option.splits)

lemma date_gt_None [simp]: "date_gt None b = False" "date_gt a None = False"
  by (simp_all add: date_gt_def split: option.splits)

lemma date_le_None [simp]: "date_le None b = False" "date_le a None = False"
  by (simp_all add: date_le_def split: option.splits)

lemma longEnough_Some [simp]: "longEnough (Some x) (Some y) m = (m \<le> y - x)"
  by (simp add: longEnough_def)

lemma longEnough_None [simp]: "longEnough None b m = False" "longEnough a None m = False"
  by (simp_all add: longEnough_def split: option.splits)

lemma pushWindow_Some [simp]:
  "pushWindow (Some x) (Some y) ws = Inr (ws @ [\<lparr> d_start = Some x, d_end = Some y \<rparr>])"
  by (simp add: pushWindow_def toISOString_def)

subsection \<open>The work of a day throws nothing\<close>

text \<open>
  A window is pushed only when the cursor is before the other date, so that both are
  valid and \<open>toISOString\<close> does not throw.
\<close>

lemma gap_step:
  "(if date_lt cursor s \<and> longEnough cursor s m then pushWindow cursor s ws else Inr ws) =
     Inr (if date_lt cursor s \<and> longEnough cursor s m
          then ws @ [\<lparr> d_start = cursor, d_end = s \<rparr>] else ws)"
  by (cases cursor; cases s) auto

lemma walkBlocks_total: "\<exists>c ws'. walkBlocks m cursor bs ws = Inr (c, ws')"
proof (induction bs arbitrary: cursor ws)
  case Nil
  show ?case by simp
next
  case (Cons b bs)
  show ?case by (simp only: walkBlocks.simps gap_step sum.case Cons.IH)
qed

lemma dayWindows_total: "\<exists>ws'. dayWindows H busy m shm ehm day ws = Inr ws'"
proof -
  obtain c ws1 where w: "walkBlocks m (setHours H day (fst shm) (snd shm))
      (blockedOf H busy (setHours H day (fst shm) (snd shm)) (setHours H day (fst ehm) (snd ehm))) ws
        = Inr (c, ws1)"
    using walkBlocks_total by blast
  show ?thesis
    by (simp add: dayWindows_def Let_def w gap_step)
qed

subsection \<open>The loop over the days\<close>

text \<open>
  One step of the loop: past the end the loop returns; on a no-meeting day it goes on
  with the next day; on another day it goes on with the windows of the day added.
\<close>

lemma daysLoop_done:
  "\<not> date_le day e \<Longrightarrow> daysLoop H busy nd m shm ehm day e ws = Some (Inr ws)"
  by (subst daysLoop.simps) simp


lemma daysLoop_skip:
  "date_le day e \<Longrightarrow> array_includes nd (getDay H day) = Inr True \<Longrightarrow>
     daysLoop H busy nd m shm ehm day e ws = daysLoop H busy nd m shm ehm (nextDay H day) e ws"
  by (subst daysLoop.simps) simp

lemma daysLoop_day:
  "date_le day e \<Longrightarrow> array_includes nd (getDay H day) = Inr False \<Longrightarrow>
     dayWindows H busy m shm ehm day ws = Inr ws1 \<Longrightarrow>
     daysLoop H busy nd m shm ehm day e ws = daysLoop H busy nd m shm ehm (nextDay H day) e ws1"
  by (subst daysLoop.simps) simp

lemma array_includes_array:
  "nd \<noteq> NotAnArray \<Longrightarrow> array_includes nd d = Inr True \<or> array_includes nd d = Inr False"
  by (cases nd) (auto simp: array_includes_def)

text \<open>
  The loop returns, and throws nothing, when the host's step to the next day moves
  forward and the no-meeting days are an array: the days left in the range decrease.
\<close>

lemma daysLoop_returns:
  assumes adv: "hostAdvances H" and arr: "nd \<noteq> NotAnArray"
  shows "\<exists>ws'. daysLoop H busy nd m shm ehm day e ws = Some (Inr ws')"
proof (induction "case day of None \<Rightarrow> 0
                  | Some d \<Rightarrow> (case e of None \<Rightarrow> 0 | Some x \<Rightarrow> nat (x - d + 1))"
       arbitrary: day ws rule: less_induct)
  case less
  show ?case
  proof (cases "date_le day e")
    case False
    then show ?thesis by (simp add: daysLoop_done)
  next
    case le: True
    then obtain d x where d: "day = Some d" and x: "e = Some x" and dx: "d \<le> x"
      by (cases day; cases e) auto
    have smaller: "(case nextDay H day of None \<Rightarrow> 0
                    | Some d' \<Rightarrow> (case e of None \<Rightarrow> 0 | Some x \<Rightarrow> nat (x - d' + 1)))
                 < (case day of None \<Rightarrow> 0
                    | Some d \<Rightarrow> (case e of None \<Rightarrow> 0 | Some x \<Rightarrow> nat (x - d + 1)))"
    proof (cases "dayAfter H d")
      case None
      with d x dx show ?thesis by (simp add: nextDay_def)
    next
      case (Some d')
      with adv have "d < d'" by (auto simp: hostAdvances_def split: option.splits dest: spec [of _ d])
      with Some d x dx show ?thesis by (simp add: nextDay_def)
    qed
    from array_includes_array [OF arr, of "getDay H day"] show ?thesis
    proof
      assume skip: "array_includes nd (getDay H day) = Inr True"
      from less [OF smaller, of ws] show ?thesis
        by (simp add: daysLoop_skip [OF le skip])
    next
      assume work: "array_includes nd (getDay H day) = Inr False"
      obtain ws1 where w: "dayWindows H busy m shm ehm day ws = Inr ws1"
        using dayWindows_total by blast
      from less [OF smaller, of ws1] show ?thesis
        by (simp add: daysLoop_day [OF le work w])
    qed
  qed
qed

text \<open>
  What a returned list satisfies. Let \<open>R\<close> hold of the first day and be kept by the step
  to the next day, and let \<open>Inv\<close> hold of the windows at the start and be kept by the work
  of each day in the range that satisfies \<open>R\<close> and is no no-meeting day. Then \<open>Inv\<close> holds
  of the list the loop returns. Nothing is asked of the host.
\<close>

lemma daysLoop_rule:
  assumes run: "daysLoop H busy nd m shm ehm day e ws = Some (Inr ws')"
    and R0: "R day"
    and Rstep: "\<And>d. R d \<Longrightarrow> R (nextDay H d)"
    and I0: "Inv ws"
    and Istep: "\<And>d acc acc'. R d \<Longrightarrow> date_le d e \<Longrightarrow>
                  array_includes nd (getDay H d) = Inr False \<Longrightarrow>
                  dayWindows H busy m shm ehm d acc = Inr acc' \<Longrightarrow> Inv acc \<Longrightarrow> Inv acc'"
  shows "Inv ws'"
proof -
  let ?P = "\<lambda>H' busy' nd' m' shm' ehm' day' e' acc (r :: error + DateSlot list).
              (H', busy', nd', m', shm', ehm', e') = (H, busy, nd, m, shm, ehm, e) \<longrightarrow>
              (\<forall>ws'. r = Inr ws' \<longrightarrow> R day' \<longrightarrow> Inv acc \<longrightarrow> Inv ws')"
  have "?P H busy nd m shm ehm day e ws (Inr ws')"
  proof (rule daysLoop.raw_induct [where P = ?P, OF _ run], goal_cases)
    case (1 loop H' busy' nd' m' shm' ehm' day' e' acc r)
    note IH = 1(1) and body0 = 1(2)
    show ?case
    proof (intro impI allI)
      fix ws'
      assume eq: "(H', busy', nd', m', shm', ehm', e') = (H, busy, nd, m, shm, ehm, e)"
        and r: "r = Inr ws'" and Rd: "R day'" and Ia: "Inv acc"
      note body = body0 [unfolded r]
      show "Inv ws'"
      proof (cases "date_le day' e'")
        case False
        with body Ia show ?thesis by simp
      next
        case le: True
        show ?thesis
        proof (cases "array_includes nd' (getDay H' day')")
          case (Inl err)
          with body le show ?thesis by simp
        next
          case (Inr skip)
          show ?thesis
          proof (cases skip)
            case True
            with body le Inr
            have "loop H' busy' nd' m' shm' ehm' (nextDay H' day') e' acc = Some (Inr ws')"
              by simp
            from IH [OF this] eq Rstep [OF Rd] Ia show ?thesis by simp
          next
            case False
            obtain acc1 where w: "dayWindows H' busy' m' shm' ehm' day' acc = Inr acc1"
              using dayWindows_total by blast
            with body le Inr False
            have next_run: "loop H' busy' nd' m' shm' ehm' (nextDay H' day') e' acc1 = Some (Inr ws')"
              by simp
            have "Inv acc1"
              using Istep [OF Rd, of acc acc1] le Inr False w eq Ia by simp
            with IH [OF next_run] eq Rstep [OF Rd] show ?thesis by simp
          qed
        qed
      qed
    qed
  qed
  with R0 I0 show ?thesis by simp
qed

lemma computeFreeSlots_returns:
  assumes "hostAdvances H" and "noMeetingDays prefs \<noteq> NotAnArray"
  shows "\<exists>ws. computeFreeSlots H busy sd ed prefs dur = Some (Inr ws)"
  using daysLoop_returns [OF assms] by (simp add: computeFreeSlots_def Let_def)


lemma laHost_advances: "hostAdvances laHost"
  by (auto simp: hostAdvances_def laHost_def zoneHost_def zoneUTC_def zoneOffset_def)

subsection \<open>The scenarios\<close>

text \<open>
  The scenario of the specification gives its two windows. The range across the change
  of offset gives the window of the Friday and the two windows of the Monday, each from
  09:00 to 18:00 local time of its day; Saturday and Sunday are skipped.
\<close>

lemma demo_run:
  "computeFreeSlots demoHost demoBusy ''2024-01-02'' ''2024-01-02'' demoPrefs 30
     = Some (Inr [morningWindow, afternoonWindow])"
  by code_simp

lemma la_run:
  "computeFreeSlots laHost laBusy ''2024-03-08'' ''2024-03-11'' demoPrefs 30
     = Some (Inr [fridayWindow, mondayMorning, mondayAfternoon])"
  by code_simp

subsection \<open>Every window is long enough\<close>

lemma lastsAtLeast_gap:
  "date_lt c s \<and> longEnough c s m \<Longrightarrow> lastsAtLeast m \<lparr> d_start = c, d_end = s \<rparr>"
  by (cases c; cases s) (auto simp: lastsAtLeast_def)

lemma walkBlocks_long:
  assumes "walkBlocks m c bs ws = Inr (c', ws')" and "\<forall>w\<in>set ws. lastsAtLeast m w"
  shows "\<forall>w\<in>set ws'. lastsAtLeast m w"
  using assms
proof (induction bs arbitrary: c ws)
  case Nil
  then show ?case by simp
next
  case (Cons b bs)
  let ?ws1 = "if date_lt c (d_start b) \<and> longEnough c (d_start b) m
              then ws @ [\<lparr> d_start = c, d_end = d_start b \<rparr>] else ws"
  let ?c1 = "if date_gt (d_end b) c then d_end b else c"
  from Cons.prems(1) have run: "walkBlocks m ?c1 bs ?ws1 = Inr (c', ws')"
    by (simp only: walkBlocks.simps gap_step sum.case)
  have "\<forall>w\<in>set ?ws1. lastsAtLeast m w"
    using Cons.prems(2) lastsAtLeast_gap [of c "d_start b" m] by auto
  with Cons.IH [OF run] show ?case .
qed

lemma dayWindows_long:
  assumes "dayWindows H busy m shm ehm day ws = Inr ws'" and "\<forall>w\<in>set ws. lastsAtLeast m w"
  shows "\<forall>w\<in>set ws'. lastsAtLeast m w"
proof -
  let ?dS = "setHours H day (fst shm) (snd shm)"
  let ?dE = "setHours H day (fst ehm) (snd ehm)"
  obtain c ws1 where w: "walkBlocks m ?dS (blockedOf H busy ?dS ?dE) ws = Inr (c, ws1)"
    using walkBlocks_total by blast
  have l1: "\<forall>w\<in>set ws1. lastsAtLeast m w"
    using walkBlocks_long [OF w assms(2)] .
  from assms(1) have "ws' = (if date_lt c ?dE \<and> longEnough c ?dE m
                             then ws1 @ [\<lparr> d_start = c, d_end = ?dE \<rparr>] else ws1)"
    by (simp add: dayWindows_def Let_def w gap_step)
  then show ?thesis
    using l1 lastsAtLeast_gap [of c ?dE m] by auto
qed

lemma daysLoop_long:
  assumes "daysLoop H busy nd m shm ehm day e ws = Some (Inr ws')"
    and "\<forall>w\<in>set ws. lastsAtLeast m w"
  shows "\<forall>w\<in>set ws'. lastsAtLeast m w"
  by (rule daysLoop_rule [OF assms(1), where R = "\<lambda>d. True"
        and Inv = "\<lambda>acc. \<forall>w\<in>set acc. lastsAtLeast m w"])
     (use assms(2) dayWindows_long in blast)+

text \<open>
  Claim C7. Every window of a list the computation returns has two valid dates that are
  at least \<open>durationMinutes\<close> minutes apart: a gap shorter than the requested duration is
  not in the result. This holds for every host. And the computation does return a list
  when the host's step to the next day moves forward and the no-meeting days are an
  array.
\<close>

theorem computeFreeSlots_min_duration:
  "(\<forall>ws. computeFreeSlots H busy sd ed prefs dur = Some (Inr ws) \<longrightarrow>
          (\<forall>w\<in>set ws. lastsAtLeast (dur * 60 * 1000) w)) \<and>
   (hostAdvances H \<and> noMeetingDays prefs \<noteq> NotAnArray \<longrightarrow>
      (\<exists>ws. computeFreeSlots H busy sd ed prefs dur = Some (Inr ws)))"
proof (intro conjI allI impI)
  fix ws
  assume "computeFreeSlots H busy sd ed prefs dur = Some (Inr ws)"
  then show "\<forall>w\<in>set ws. lastsAtLeast (dur * 60 * 1000) w"
    unfolding computeFreeSlots_def Let_def
    by (rule daysLoop_long) simp
next
  assume "hostAdvances H \<and> noMeetingDays prefs \<noteq> NotAnArray"
  then show "\<exists>ws. computeFreeSlots H busy sd ed prefs dur = Some (Inr ws)"
    using computeFreeSlots_returns by blast
qed

text \<open>
  On the range across the change of offset, the three windows returned last 30 minutes
  or more.
\<close>

theorem computeFreeSlots_min_duration_witness:
  "hostAdvances laHost \<and> noMeetingDays demoPrefs \<noteq> NotAnArray \<and>
   computeFreeSlots laHost laBusy ''2024-03-08'' ''2024-03-11'' demoPrefs 30
     = Some (Inr [fridayWindow, mondayMorning, mondayAfternoon]) \<and>
   lastsAtLeast (30 * 60 * 1000) fridayWindow \<and>
   lastsAtLeast (30 * 60 * 1000) mondayMorning \<and>
   lastsAtLeast (30 * 60 * 1000) mondayAfternoon"
  using computeFreeSlots_min_duration
          [of laHost laBusy "''2024-03-08''" "''2024-03-11''" demoPrefs 30]
        la_run laHost_advances
  by (simp add: demoPrefs_def)

text \<open>
  In the scenario of the specification with a duration of 90 minutes, the morning
  window, of 60 minutes, is left out.
\<close>

lemma demo_run_90:
  "computeFreeSlots demoHost demoBusy ''2024-01-02'' ''2024-01-02'' demoPrefs 90
     = Some (Inr [afternoonWindow])"
  by code_simp

subsection \<open>No window overlaps a busy block\<close>

lemma set_blockedOf:
  "set (blockedOf H busy dS dE) =
     clampBlock dS dE ` {b \<in> toDates H ` set busy. touchesDay dS dE b}"
  by (auto simp: blockedOf_def)

text \<open>A block that passed the filter and the clamp has valid dates within the day.\<close>

lemma clamped_valid:
  assumes "touchesDay (Some s0) (Some e0) b"
  shows "\<exists>x y. d_start (clampBlock (Some s0) (Some e0) b) = Some x \<and>
               d_end (clampBlock (Some s0) (Some e0) b) = Some y \<and>
               s0 \<le> x \<and> (x = s0 \<or> x < e0) \<and> y \<le> e0"
  using assms
  by (cases "d_start b"; cases "d_end b") (auto simp: touchesDay_def clampBlock_def)

lemma blockedOf_valid:
  assumes "b \<in> set (blockedOf H busy (Some s0) (Some e0))"
  shows "\<exists>x y. d_start b = Some x \<and> d_end b = Some y \<and> s0 \<le> x \<and> (x = s0 \<or> x < e0) \<and> y \<le> e0"
  using assms clamped_valid by (auto simp: set_blockedOf)

lemma blockedOf_sorted: "sorted (map startTime (blockedOf H busy dS dE))"
  by (simp add: blockedOf_def)

lemma blockedOf_invalid:
  "dS = None \<or> dE = None \<Longrightarrow> blockedOf H busy dS dE = []"
  by (auto simp: blockedOf_def touchesDay_def filter_empty_conv)

text \<open>
  The walk over sorted, valid blocks: the cursor never moves back and ends at or after
  the end of every block; a window pushed starts at or after the first cursor, ends at
  the start of a block, and overlaps no block.
\<close>

lemma walkBlocks_gaps:
  assumes "sorted (map startTime bs)"
    and "\<forall>b\<in>set bs. \<exists>x y. d_start b = Some x \<and> d_end b = Some y"
    and "walkBlocks m (Some c) bs ws = Inr (c', ws')"
  shows "\<exists>cf. c' = Some cf \<and> c \<le> cf \<and>
           (\<forall>b\<in>set bs. \<forall>y. d_end b = Some y \<longrightarrow> y \<le> cf) \<and>
           (\<forall>w\<in>set ws'. w \<in> set ws \<or>
              (\<exists>s e. d_start w = Some s \<and> d_end w = Some e \<and> c \<le> s \<and> s < e \<and>
                 (\<exists>b\<in>set bs. d_start b = Some e) \<and>
                 (\<forall>b\<in>set bs. \<not> overlaps w b)))"
  using assms
proof (induction bs arbitrary: c ws)
  case Nil
  then show ?case by auto
next
  case (Cons b bs)
  from Cons.prems(2) obtain x y where b: "d_start b = Some x" "d_end b = Some y"
    by auto
  let ?w0 = "\<lparr> d_start = Some c, d_end = Some x \<rparr>"
  let ?ws1 = "if c < x \<and> m \<le> x - c then ws @ [?w0] else ws"
  let ?c1 = "if c < y then y else c"
  from Cons.prems(3) have run: "walkBlocks m (Some ?c1) bs ?ws1 = Inr (c', ws')"
    by (auto simp: b split: if_splits)
  have sorted_bs: "sorted (map startTime bs)"
    and valid_bs: "\<forall>b\<in>set bs. \<exists>x y. d_start b = Some x \<and> d_end b = Some y"
    using Cons.prems(1,2) by auto
  have later: "\<forall>b'\<in>set bs. \<forall>x'. d_start b' = Some x' \<longrightarrow> x \<le> x'"
    using Cons.prems(1) b by (auto simp: startTime_def)
  from Cons.IH [OF sorted_bs valid_bs run]
  obtain cf where cf: "c' = Some cf" "?c1 \<le> cf"
    and ends: "\<forall>b\<in>set bs. \<forall>y. d_end b = Some y \<longrightarrow> y \<le> cf"
    and wins: "\<forall>w\<in>set ws'. w \<in> set ?ws1 \<or>
              (\<exists>s e. d_start w = Some s \<and> d_end w = Some e \<and> ?c1 \<le> s \<and> s < e \<and>
                 (\<exists>b\<in>set bs. d_start b = Some e) \<and>
                 (\<forall>b\<in>set bs. \<not> overlaps w b))"
    by blast
  have c_cf: "c \<le> cf" and y_cf: "y \<le> cf" using cf(2) by (auto split: if_splits)
  have ends': "\<forall>b'\<in>set (b # bs). \<forall>y'. d_end b' = Some y' \<longrightarrow> y' \<le> cf"
    using ends y_cf b by auto
  have w0: "c < x \<Longrightarrow> \<forall>b'\<in>set (b # bs). \<not> overlaps ?w0 b'"
    using later b valid_bs by (fastforce simp: overlaps_def)
  have wins': "w \<in> set ws \<or>
              (\<exists>s e. d_start w = Some s \<and> d_end w = Some e \<and> c \<le> s \<and> s < e \<and>
                 (\<exists>b\<in>set (b # bs). d_start b = Some e) \<and>
                 (\<forall>b\<in>set (b # bs). \<not> overlaps w b))" if w: "w \<in> set ws'" for w
  proof -
    from wins w consider (old) "w \<in> set ?ws1"
      | (new) s e where "d_start w = Some s" "d_end w = Some e" "?c1 \<le> s" "s < e"
          "\<exists>b\<in>set bs. d_start b = Some e" "\<forall>b\<in>set bs. \<not> overlaps w b"
      by blast
    then show ?thesis
    proof cases
      case old
      show ?thesis
      proof (cases "w \<in> set ws")
        case True then show ?thesis by simp
      next
        case False
        with old have "w = ?w0" and "c < x" by (auto split: if_splits)
        with w0 b show ?thesis by auto
      qed
    next
      case new
      have "\<not> overlaps w b" using new(1,3) b by (auto simp: overlaps_def split: if_splits)
      moreover have "c \<le> s" using new(3) by (auto split: if_splits)
      ultimately show ?thesis using new by auto
    qed
  qed
  from cf(1) c_cf ends' wins' show ?case by blast
qed

text \<open>A block that the filter drops, clamped, overlaps no interval within the day.\<close>

lemma outside_no_overlap:
  assumes "\<not> touchesDay (Some s0) (Some e0) b"
    and "d_start w = Some s" "d_end w = Some e" "s0 \<le> s" "s < e" "e \<le> e0"
  shows "\<not> overlaps w (clampBlock (Some s0) (Some e0) b)"
  using assms
  by (cases "d_start b"; cases "d_end b")
     (auto simp: touchesDay_def clampBlock_def overlaps_def)

lemma dayWindows_avoid:
  assumes run: "dayWindows H busy m shm ehm day ws = Inr ws'"
    and dS: "dS = setHours H day (fst shm) (snd shm)"
    and dE: "dE = setHours H day (fst ehm) (snd ehm)"
    and w: "w \<in> set ws'"
  shows "w \<in> set ws \<or> (withinDay dS dE w \<and> avoidsBusy H busy dS dE w)"
proof -
  obtain c ws1 where walk: "walkBlocks m dS (blockedOf H busy dS dE) ws = Inr (c, ws1)"
    using walkBlocks_total by blast
  from run have ws': "ws' = (if date_lt c dE \<and> longEnough c dE m
                             then ws1 @ [\<lparr> d_start = c, d_end = dE \<rparr>] else ws1)"
    by (simp add: dayWindows_def Let_def walk gap_step dS [symmetric] dE [symmetric])
  show ?thesis
  proof (cases "dS = None \<or> dE = None")
    case True
    then have "blockedOf H busy dS dE = []" by (rule blockedOf_invalid)
    with walk have "c = dS" "ws1 = ws" by simp_all
    with ws' True w show ?thesis by auto
  next
    case False
    then obtain s0 e0 where s0: "dS = Some s0" and e0: "dE = Some e0" by auto
    let ?bs = "blockedOf H busy (Some s0) (Some e0)"
    have valid: "\<forall>b\<in>set ?bs. \<exists>x y. d_start b = Some x \<and> d_end b = Some y"
      using blockedOf_valid by blast
    from walkBlocks_gaps [OF blockedOf_sorted valid walk [unfolded s0 e0]]
    obtain cf where cf: "c = Some cf" "s0 \<le> cf"
      and ends: "\<forall>b\<in>set ?bs. \<forall>y. d_end b = Some y \<longrightarrow> y \<le> cf"
      and wins: "\<forall>w\<in>set ws1. w \<in> set ws \<or>
              (\<exists>s e. d_start w = Some s \<and> d_end w = Some e \<and> s0 \<le> s \<and> s < e \<and>
                 (\<exists>b\<in>set ?bs. d_start b = Some e) \<and>
                 (\<forall>b\<in>set ?bs. \<not> overlaps w b))"
      by blast
    have fresh: "withinDay dS dE w \<and> avoidsBusy H busy dS dE w"
      if st: "d_start w = Some s" "d_end w = Some e" "s0 \<le> s" "s < e" "e \<le> e0"
        and no: "\<forall>b\<in>set ?bs. \<not> overlaps w b" for s e
    proof -
      have "\<not> overlaps w (clampBlock (Some s0) (Some e0) (toDates H b))" if "b \<in> set busy" for b
      proof (cases "touchesDay (Some s0) (Some e0) (toDates H b)")
        case True
        with that have "clampBlock (Some s0) (Some e0) (toDates H b) \<in> set ?bs"
          by (auto simp: set_blockedOf)
        with no show ?thesis by blast
      next
        case False
        from outside_no_overlap [OF False st] show ?thesis .
      qed
      then show ?thesis
        using st by (simp add: withinDay_def avoidsBusy_def list_all_iff s0 e0)
    qed
    show ?thesis
    proof (cases "w \<in> set ws1")
      case True
      with wins consider "w \<in> set ws"
        | s e where "d_start w = Some s" "d_end w = Some e" "s0 \<le> s" "s < e"
            "\<exists>b\<in>set ?bs. d_start b = Some e" "\<forall>b\<in>set ?bs. \<not> overlaps w b"
        by blast
      then show ?thesis
      proof cases
        case 1 then show ?thesis by simp
      next
        case 2
        from 2(5) obtain b where b: "b \<in> set ?bs" "d_start b = Some e" by blast
        from blockedOf_valid [OF b(1)] b(2) have "e = s0 \<or> e < e0" by auto
        with 2(3,4) have "e \<le> e0" by auto
        from fresh [OF 2(1,2,3,4) this 2(6)] show ?thesis by simp
      qed
    next
      case False
      with w ws' have lt: "date_lt c dE" and w_eq: "w = \<lparr> d_start = c, d_end = dE \<rparr>"
        by (auto split: if_splits)
      from lt cf e0 have "cf < e0" by simp
      have "\<forall>b\<in>set ?bs. \<not> overlaps w b"
        using ends blockedOf_valid by (fastforce simp: overlaps_def w_eq cf e0)
      from fresh [of cf e0, OF _ _ cf(2) \<open>cf < e0\<close> _ this] show ?thesis
        by (simp add: w_eq cf e0)
    qed
  qed
qed

lemma daysLoop_avoid:
  assumes run: "daysLoop H busy nd m shm ehm day e ws = Some (Inr ws')"
  shows "\<forall>w\<in>set ws'. w \<in> set ws \<or>
         (\<exists>k. date_le ((nextDay H ^^ k) day) e \<and>
               array_includes nd (getDay H ((nextDay H ^^ k) day)) = Inr False \<and>
               withinDay (setHours H ((nextDay H ^^ k) day) (fst shm) (snd shm))
                         (setHours H ((nextDay H ^^ k) day) (fst ehm) (snd ehm)) w \<and>
               avoidsBusy H busy (setHours H ((nextDay H ^^ k) day) (fst shm) (snd shm))
                         (setHours H ((nextDay H ^^ k) day) (fst ehm) (snd ehm)) w)"
proof -
  let ?Q = "\<lambda>d w. date_le d e \<and> array_includes nd (getDay H d) = Inr False \<and>
               withinDay (setHours H d (fst shm) (snd shm)) (setHours H d (fst ehm) (snd ehm)) w \<and>
               avoidsBusy H busy (setHours H d (fst shm) (snd shm))
                 (setHours H d (fst ehm) (snd ehm)) w"
  let ?R = "\<lambda>d. \<exists>k. d = (nextDay H ^^ k) day"
  let ?Inv = "\<lambda>acc. \<forall>w\<in>set acc. w \<in> set ws \<or> (\<exists>k. ?Q ((nextDay H ^^ k) day) w)"
  have "?Inv ws'"
  proof (rule daysLoop_rule [OF run, where R = ?R and Inv = ?Inv])
    show "?R day" by (rule exI [of _ 0]) simp
  next
    fix d assume "?R d"
    then obtain k where "d = (nextDay H ^^ k) day" by blast
    then have "nextDay H d = (nextDay H ^^ Suc k) day" by simp
    then show "?R (nextDay H d)" by blast
  next
    show "?Inv ws" by simp
  next
    fix d acc acc'
    assume Rd: "?R d" and le: "date_le d e"
      and work: "array_includes nd (getDay H d) = Inr False"
      and dw: "dayWindows H busy m shm ehm d acc = Inr acc'" and inv: "?Inv acc"
    from Rd obtain k where k: "d = (nextDay H ^^ k) day" by blast
    show "?Inv acc'"
    proof
      fix w assume "w \<in> set acc'"
      from dayWindows_avoid [OF dw refl refl this]
      show "w \<in> set ws \<or> (\<exists>k. ?Q ((nextDay H ^^ k) day) w)"
      proof
        assume "w \<in> set acc"
        with inv show ?thesis by blast
      next
        assume "withinDay (setHours H d (fst shm) (snd shm)) (setHours H d (fst ehm) (snd ehm)) w \<and>
                avoidsBusy H busy (setHours H d (fst shm) (snd shm))
                  (setHours H d (fst ehm) (snd ehm)) w"
        with le work have "?Q ((nextDay H ^^ k) day) w" unfolding k by simp
        then show ?thesis by blast
      qed
    qed
  qed
  then show ?thesis .
qed

text \<open>
  Claim C6. Every window of a list the computation returns is the window of a day the
  loop reaches: a day of the range that is no no-meeting day, within whose working hours
  the window lies, and such that the window overlaps no input busy block clamped to the
  working-hour bounds of that day. This holds for every host, whatever its time zone.
  And the computation does return a list when the host's step to the next day moves
  forward and the no-meeting days are an array.
\<close>

theorem computeFreeSlots_avoids_busy:
  "(\<forall>ws. computeFreeSlots H busy sd ed prefs dur = Some (Inr ws) \<longrightarrow>
          (\<forall>w\<in>set ws. \<exists>k. windowOfDay H busy prefs (newDate H (ed @ ''T00:00:00''))
                              (iteratedDay H sd k) w)) \<and>
   (hostAdvances H \<and> noMeetingDays prefs \<noteq> NotAnArray \<longrightarrow>
      (\<exists>ws. computeFreeSlots H busy sd ed prefs dur = Some (Inr ws)))"
proof (intro conjI allI impI)
  fix ws
  assume r: "computeFreeSlots H busy sd ed prefs dur = Some (Inr ws)"
  show "\<forall>w\<in>set ws. \<exists>k. windowOfDay H busy prefs (newDate H (ed @ ''T00:00:00''))
                              (iteratedDay H sd k) w"
    using daysLoop_avoid [OF r [unfolded computeFreeSlots_def Let_def]]
    by (simp add: windowOfDay_def iteratedDay_def dayStartOf_def dayEndOf_def)
next
  assume "hostAdvances H \<and> noMeetingDays prefs \<noteq> NotAnArray"
  then show "\<exists>ws. computeFreeSlots H busy sd ed prefs dur = Some (Inr ws)"
    using computeFreeSlots_returns by blast
qed

text \<open>
  On the range across the change of offset, each of the three windows returned is the
  window of a day of the range.
\<close>

theorem computeFreeSlots_avoids_busy_witness:
  "hostAdvances laHost \<and> noMeetingDays demoPrefs \<noteq> NotAnArray \<and>
   computeFreeSlots laHost laBusy ''2024-03-08'' ''2024-03-11'' demoPrefs 30
     = Some (Inr [fridayWindow, mondayMorning, mondayAfternoon]) \<and>
   (\<exists>k. windowOfDay laHost laBusy demoPrefs (newDate laHost ''2024-03-11T00:00:00'')
          (iteratedDay laHost ''2024-03-08'' k) fridayWindow) \<and>
   (\<exists>k. windowOfDay laHost laBusy demoPrefs (newDate laHost ''2024-03-11T00:00:00'')
          (iteratedDay laHost ''2024-03-08'' k) mondayMorning) \<and>
   (\<exists>k. windowOfDay laHost laBusy demoPrefs (newDate laHost ''2024-03-11T00:00:00'')
          (iteratedDay laHost ''2024-03-08'' k) mondayAfternoon)"
  using computeFreeSlots_avoids_busy
          [of laHost laBusy "''2024-03-08''" "''2024-03-11''" demoPrefs 30]
        la_run laHost_advances
  by (simp add: demoPrefs_def)

text \<open>
  The Monday windows are windows of the third step from the Friday, the day after the
  change of offset.
\<close>

lemma monday_is_third_step:
  "windowOfDay laHost laBusy demoPrefs (newDate laHost ''2024-03-11T00:00:00'')
     (iteratedDay laHost ''2024-03-08'' 3) mondayMorning \<and>
   windowOfDay laHost laBusy demoPrefs (newDate laHost ''2024-03-11T00:00:00'')
     (iteratedDay laHost ''2024-03-08'' 3) mondayAfternoon"
  by code_simp

subsection \<open>The buffers are not read\<close>

text \<open>
  Claim C5. Two runs whose preferences differ in \<open>bufferBeforeMinutes\<close> and
  \<open>bufferAfterMinutes\<close> only, on the same host, busy blocks, date range and duration,
  return the same result.
\<close>

theorem computeFreeSlots_ignores_buffers:
  "computeFreeSlots H busy sd ed
     (prefs \<lparr> bufferBeforeMinutes := before, bufferAfterMinutes := after \<rparr>) dur
     = computeFreeSlots H busy sd ed prefs dur"
  by (simp add: computeFreeSlots_def)

text \<open>The scenario with buffers of an hour: the same two windows.\<close>

theorem computeFreeSlots_ignores_buffers_witness:
  "computeFreeSlots demoHost demoBusy ''2024-01-02'' ''2024-01-02''
     (demoPrefs \<lparr> bufferBeforeMinutes := 60, bufferAfterMinutes := 60 \<rparr>) 30
     = Some (Inr [morningWindow, afternoonWindow])"
  by (simp only: computeFreeSlots_ignores_buffers demo_run)

subsection \<open>Failures, and working hours that do not start before they end\<close>











end
